theory Spec2Isabelle
  imports Main
begin

section \<open>The question-answering loop of app.py\<close>

text \<open>
  The program is one Streamlit script, \<^verbatim>\<open>src/app.py\<close>, with three functions:
  \<^verbatim>\<open>setup_connections\<close> (lines 21-34), \<^verbatim>\<open>run_cypher_query\<close> (lines 36-58) and
  \<^verbatim>\<open>main\<close> (lines 60-283). Its collaborators are opaque to the script: the secrets
  store, the Neo4j driver, the Gemini client and the Streamlit page. They are parameters of
  the model (the record \<open>world\<close>); every call that the script makes to the chat, to the
  database and to the page is written to a trace of effects, in program order.

  Conventions.
  \<^item> A Python string is a \<open>string\<close>; a character stands for the code point of the same
    number, so the model covers strings of code points below 256.
  \<^item> The objects of a model response are the classes of \<^verbatim>\<open>google.genai.types\<close>, whose
    attributes are all declared optional with default \<^verbatim>\<open>None\<close>: \<^verbatim>\<open>candidates\<close>,
    \<^verbatim>\<open>content\<close>, \<^verbatim>\<open>parts\<close>, \<^verbatim>\<open>text\<close>, \<^verbatim>\<open>function_call\<close>, \<^verbatim>\<open>name\<close> and
    \<^verbatim>\<open>args\<close>. Each of them is an \<open>option\<close>, and \<open>None\<close> is Python's \<^verbatim>\<open>None\<close>. The
    attribute itself always exists, so \<^verbatim>\<open>hasattr\<close> is always true on these objects.
    Where the script reads an attribute of \<^verbatim>\<open>None\<close>, or tests membership in \<^verbatim>\<open>None\<close>,
    Python raises, and the model has a branch for it.
  \<^item> A raised exception is a value: functions that can raise return a sum, \<open>Inl\<close> the
    exception.
  \<^item> The \<^verbatim>\<open>while True\<close> loop may run forever; it is a partial function into
    \<open>option\<close>, where \<open>None\<close> means that the loop never returns.
  \<^item> Calls of \<^verbatim>\<open>logger\<close> and \<^verbatim>\<open>print\<close> write to the process log only and are left
    out, as is the fixed page header of lines 61-69. The calls to the Streamlit page are
    taken not to raise.
\<close>

subsection \<open>Exceptions\<close>

text \<open>
  \<open>External t\<close> is an exception raised by a library (the secrets store, the Neo4j
  driver, the Gemini client) whose \<^verbatim>\<open>str(e)\<close> is \<open>t\<close>. \<open>UnboundLocalError v\<close> is what
  Python raises when the local variable \<open>v\<close> is read before any assignment,
  \<open>AttributeError a\<close> when the attribute \<open>a\<close> of \<^verbatim>\<open>None\<close> is read, and \<open>TypeError t\<close>
  when \<^verbatim>\<open>in\<close> is applied to a value of the type \<open>t\<close>, which is no container. All are
  subclasses of \<^verbatim>\<open>Exception\<close>, so an \<^verbatim>\<open>except Exception\<close> clause around the raising
  statement catches them. \<open>exc_text\<close> is \<^verbatim>\<open>str(e)\<close>, with the wording of CPython 3.11
  to 3.13.
\<close>

datatype py_exception =
    External string
  | UnboundLocalError string
  | AttributeError string
  | TypeError string

fun exc_text :: "py_exception \<Rightarrow> string" where
  "exc_text (External t) = t"
| "exc_text (UnboundLocalError v) =
     ''cannot access local variable '' @ [CHR 0x27] @ v @ [CHR 0x27] @
     '' where it is not associated with a value''"
| "exc_text (AttributeError a) =
     [CHR 0x27] @ ''NoneType'' @ [CHR 0x27] @ '' object has no attribute '' @
     [CHR 0x27] @ a @ [CHR 0x27]"
| "exc_text (TypeError t) =
     ''argument of type '' @ [CHR 0x27] @ t @ [CHR 0x27] @ '' is not iterable''"

subsection \<open>Strings\<close>

text \<open>
  \<^verbatim>\<open>str.strip()\<close> removes leading and trailing whitespace; below code point 256 the
  whitespace characters of Python are 9-13, 28-32, 133 and 160. A string is truthy when it
  is not empty. \<^verbatim>\<open>sep.join(xs)\<close> puts \<open>sep\<close> between the elements.
\<close>

definition py_isspace :: "char \<Rightarrow> bool" where
  "py_isspace c =
     ((of_char c :: nat) \<in> {9, 10, 11, 12, 13, 28, 29, 30, 31, 32, 133, 160})"

definition strip :: "string \<Rightarrow> string" where
  "strip s = rev (dropWhile py_isspace (rev (dropWhile py_isspace s)))"

fun join :: "string \<Rightarrow> string list \<Rightarrow> string" where
  "join sep [] = []"
| "join sep [x] = x"
| "join sep (x # y # ys) = x @ sep @ join sep (y # ys)"

subsection \<open>Model responses and messages\<close>

text \<open>
  \<^verbatim>\<open>FunctionCall\<close>, \<^verbatim>\<open>Part\<close>, \<^verbatim>\<open>Content\<close>, \<^verbatim>\<open>Candidate\<close> and
  \<^verbatim>\<open>GenerateContentResponse\<close>, with the attributes that the script reads. The arguments
  of a function call are a dictionary from strings to values.
\<close>

record 'v function_call =
  name :: "string option"
  args :: "(string \<rightharpoonup> 'v) option"

record 'v part =
  part_text :: "string option"
  function_call :: "'v function_call option"

record 'v content =
  parts :: "'v part list option"

record 'v candidate =
  content :: "'v content option"

record 'v response =
  candidates :: "'v candidate list option"

text \<open>
  \<^verbatim>\<open>json.dumps\<close> is represented by the document it writes: \<open>Dumps_list rows\<close> is the
  text of \<^verbatim>\<open>json.dumps(result_list, indent=2)\<close>, \<open>Dumps_dict kvs\<close> the text of
  \<^verbatim>\<open>json.dumps\<close> of a dictionary of strings.
\<close>

datatype 'r json_text = Dumps_list 'r | Dumps_dict "(string \<times> string) list"

text \<open>\<^verbatim>\<open>Part.from_function_response(name=..., response=...)\<close>.\<close>

record 'r function_response =
  fr_name :: string
  fr_response :: "(string \<times> 'r json_text) list"

text \<open>What \<^verbatim>\<open>chat.send_message\<close> is given: the question, or a list of function responses.\<close>

datatype 'r message = User_text string | Function_responses "'r function_response list"

subsection \<open>The world outside the script, and the trace of effects\<close>

text \<open>
  \<^item> \<open>secrets k\<close>: \<^verbatim>\<open>st.secrets[k]\<close>, which raises when the key or the secrets file is
    missing.
  \<^item> \<open>text_input\<close>, \<open>button\<close>: the value of the question box and whether
    \<^verbatim>\<open>Get Answer\<close> was pressed in this run of the script.
  \<^item> \<open>graph_database_driver uri user password\<close>: \<^verbatim>\<open>GraphDatabase.driver(uri, auth=(user, password))\<close>.
    It raises, or gives a driver. A driver is a function of the query: \<open>Inr rows\<close> when
    the \<^verbatim>\<open>try\<close> block of lines 44-53 reaches its \<^verbatim>\<open>return\<close> with \<^verbatim>\<open>result_list = rows\<close>,
    \<open>Inl e\<close> when a statement of that block raises \<open>e\<close> (opening the session, running
    the query, reading the records, serialising them).
  \<^item> \<open>chats_create key\<close>: lines 84-197, which make the client for the API key \<open>key\<close>,
    the tool declaration and the chat (fixed model, temperature 0, system prompt).
    \<open>Some e\<close> when one of these statements raises \<open>e\<close>, \<open>None\<close> when the chat is made.
  \<^item> \<open>chat_send_message key history\<close>: the answer of \<^verbatim>\<open>chat.send_message\<close> on that chat,
    where \<open>history\<close> lists every message sent on the chat so far, the current one last.
    It raises, or gives a response.
\<close>

record ('v, 'r) world =
  secrets :: "string \<Rightarrow> py_exception + string"
  text_input :: string
  button :: bool
  graph_database_driver ::
    "string \<Rightarrow> string \<Rightarrow> string \<Rightarrow> py_exception + ('v \<Rightarrow> py_exception + 'r)"
  chats_create :: "string \<Rightarrow> py_exception option"
  chat_send_message :: "string \<Rightarrow> 'r message list \<Rightarrow> py_exception + 'v response"

datatype container = Main_container | Process_steps | Answer_container

datatype ('v, 'r) effect =
    St_warning string
  | St_subheader container string
  | St_write container string
  | St_markdown container string
  | St_error string
  | Send_message "'r message"
  | Neo4j_query 'v

subsection \<open>setup_connections (lines 21-34)\<close>

text \<open>
  The four local variables are unassigned at first. The \<^verbatim>\<open>try\<close> block assigns them in
  order and is left at the first lookup that raises; the handler only logs. The
  \<^verbatim>\<open>return\<close> statement then reads the four variables from left to right.
\<close>

record locals =
  neo4j_uri :: "string option"
  neo4j_user :: "string option"
  neo4j_password :: "string option"
  google_api_key :: "string option"

definition unassigned :: locals where
  "unassigned =
     \<lparr>neo4j_uri = None, neo4j_user = None, neo4j_password = None, google_api_key = None\<rparr>"

definition load_secrets :: "(string \<Rightarrow> py_exception + string) \<Rightarrow> locals" where
  "load_secrets st_secrets =
     (case st_secrets ''NEO4J_URI'' of
        Inl e \<Rightarrow> unassigned
      | Inr a \<Rightarrow>
     (case st_secrets ''NEO4J_USER'' of
        Inl e \<Rightarrow> unassigned\<lparr>neo4j_uri := Some a\<rparr>
      | Inr b \<Rightarrow>
     (case st_secrets ''NEO4J_PASSWORD'' of
        Inl e \<Rightarrow> unassigned\<lparr>neo4j_uri := Some a, neo4j_user := Some b\<rparr>
      | Inr c \<Rightarrow>
     (case st_secrets ''api_key'' of
        Inl e \<Rightarrow> unassigned\<lparr>neo4j_uri := Some a, neo4j_user := Some b, neo4j_password := Some c\<rparr>
      | Inr d \<Rightarrow>
          \<lparr>neo4j_uri = Some a, neo4j_user = Some b, neo4j_password = Some c,
           google_api_key = Some d\<rparr>))))"

definition read_local :: "string \<Rightarrow> string option \<Rightarrow> py_exception + string" where
  "read_local v x = (case x of None \<Rightarrow> Inl (UnboundLocalError v) | Some s \<Rightarrow> Inr s)"

type_synonym connections = "string \<times> string \<times> string \<times> string"

definition setup_connections ::
  "(string \<Rightarrow> py_exception + string) \<Rightarrow> py_exception + connections" where
  "setup_connections st_secrets =
     (let l = load_secrets st_secrets in
      case read_local ''neo4j_uri'' (neo4j_uri l) of Inl e \<Rightarrow> Inl e | Inr a \<Rightarrow>
      case read_local ''neo4j_user'' (neo4j_user l) of Inl e \<Rightarrow> Inl e | Inr b \<Rightarrow>
      case read_local ''neo4j_password'' (neo4j_password l) of Inl e \<Rightarrow> Inl e | Inr c \<Rightarrow>
      case read_local ''google_api_key'' (google_api_key l) of Inl e \<Rightarrow> Inl e | Inr d \<Rightarrow>
        Inr (a, b, c, d))"

subsection \<open>run_cypher_query (lines 36-58)\<close>

text \<open>
  The driver is made before the \<^verbatim>\<open>try\<close> statement, so an exception of
  \<^verbatim>\<open>GraphDatabase.driver\<close> leaves the function. An exception inside the \<^verbatim>\<open>try\<close> block is
  caught and turned into the text of \<^verbatim>\<open>{"error": str(e)}\<close>. The \<^verbatim>\<open>finally\<close> clause
  closes the driver on both paths; \<^verbatim>\<open>driver.close()\<close> is taken not to raise.
\<close>

definition run_cypher_query ::
  "('v, 'r) world \<Rightarrow> 'v \<Rightarrow> string \<Rightarrow> string \<Rightarrow> string \<Rightarrow> py_exception + 'r json_text" where
  "run_cypher_query w query uri user password =
     (case graph_database_driver w uri user password of
        Inl e \<Rightarrow> Inl e
      | Inr driver \<Rightarrow>
          (case driver query of
             Inr result_list \<Rightarrow> Inr (Dumps_list result_list)
           | Inl e \<Rightarrow> Inr (Dumps_dict [(''error'', exc_text e)])))"

subsection \<open>The processing loop of main (lines 216-269)\<close>

record ('v, 'r) loop_state =
  response :: "'v response"
  step_content :: "string list"
  final_answer_text :: string
  chat :: "'r message list"
  trace :: "('v, 'r) effect list"

text \<open>
  The test of line 271, \<^verbatim>\<open>response.candidates and response.candidates[0].content.parts\<close>;
  the test of line 218 is its negation. \<^verbatim>\<open>candidates\<close> is falsy when it is \<^verbatim>\<open>None\<close> or
  empty, and so is \<^verbatim>\<open>parts\<close>. When the first candidate has no content, reading
  \<^verbatim>\<open>.parts\<close> of \<^verbatim>\<open>None\<close> raises \<^verbatim>\<open>AttributeError\<close>.
\<close>

definition has_parts :: "'v response \<Rightarrow> py_exception + bool" where
  "has_parts r =
     (case candidates r of
        None \<Rightarrow> Inr False
      | Some [] \<Rightarrow> Inr False
      | Some (cand # rest) \<Rightarrow>
          (case content cand of
             None \<Rightarrow> Inl (AttributeError ''parts'')
           | Some ct \<Rightarrow> (case parts ct of None \<Rightarrow> Inr False | Some ps \<Rightarrow> Inr (ps \<noteq> []))))"

text \<open>
  \<^verbatim>\<open>response.candidates[0].content.parts\<close>, which the script reads only after
  \<open>has_parts\<close> has given \<^verbatim>\<open>True\<close>; it is the empty list in the other cases.
\<close>

definition first_parts :: "'v response \<Rightarrow> 'v part list" where
  "first_parts r =
     (case candidates r of
        None \<Rightarrow> []
      | Some [] \<Rightarrow> []
      | Some (cand # rest) \<Rightarrow>
          (case content cand of
             None \<Rightarrow> []
           | Some ct \<Rightarrow> (case parts ct of None \<Rightarrow> [] | Some ps \<Rightarrow> ps)))"

text \<open>Lines 222-226: the function calls of the parts, in order.\<close>

definition function_calls_of :: "'v part list \<Rightarrow> 'v function_call list" where
  "function_calls_of ps = List.map_filter function_call ps"

text \<open>
  Lines 229, 235 and 272: the texts of the parts whose \<^verbatim>\<open>text\<close> is truthy (present and
  not empty), joined with the empty separator.
\<close>

definition truthy_text :: "'v part \<Rightarrow> string option" where
  "truthy_text p =
     (case part_text p of None \<Rightarrow> None | Some t \<Rightarrow> if t = [] then None else Some t)"

definition joined_text :: "'v part list \<Rightarrow> string" where
  "joined_text ps = join [] (List.map_filter truthy_text ps)"

text \<open>
  Lines 246-263, the \<^verbatim>\<open>for\<close> loop over the function calls, with the list
  \<^verbatim>\<open>function_responses\<close> and the trace as accumulators. Line 252 compares the name
  first; only for the registered name it tests \<^verbatim>\<open>"query" in args\<close>, which raises
  \<^verbatim>\<open>TypeError\<close> when \<^verbatim>\<open>args\<close> is \<^verbatim>\<open>None\<close>. An exception of that test or of
  \<^verbatim>\<open>run_cypher_query\<close> leaves the loop at once.
\<close>

fun dispatch ::
  "('v, 'r) world \<Rightarrow> connections \<Rightarrow> 'v function_call list \<Rightarrow> 'r function_response list \<Rightarrow>
   ('v, 'r) effect list \<Rightarrow>
   (py_exception \<times> ('v, 'r) effect list) + ('r function_response list \<times> ('v, 'r) effect list)"
where
  "dispatch w c [] function_responses tr = Inr (function_responses, tr)"
| "dispatch w c (func_call # rest) function_responses tr =
     (case name func_call of
        None \<Rightarrow> dispatch w c rest function_responses tr
      | Some function_name \<Rightarrow>
          if function_name = ''run_cypher_query'' then
            (case args func_call of
               None \<Rightarrow> Inl (TypeError ''NoneType'', tr)
             | Some a \<Rightarrow>
                 (case a ''query'' of
                    None \<Rightarrow> dispatch w c rest function_responses tr
                  | Some query \<Rightarrow>
                      (case run_cypher_query w query (fst c) (fst (snd c)) (fst (snd (snd c))) of
                         Inl e \<Rightarrow> Inl (e, tr @ [Neo4j_query query])
                       | Inr data \<Rightarrow>
                           dispatch w c rest
                             (function_responses @
                                [\<lparr>fr_name = function_name, fr_response = [(''results'', data)]\<rparr>])
                             (tr @ [Neo4j_query query]))))
          else dispatch w c rest function_responses tr)"

text \<open>
  Lines 237-244: interim text that is not blank is appended to \<^verbatim>\<open>step_content\<close>, the
  steps are written to the page, joined by two newlines, and \<^verbatim>\<open>step_content\<close> is emptied.
\<close>

definition flush_steps :: "string \<Rightarrow> ('v, 'r) loop_state \<Rightarrow> ('v, 'r) loop_state" where
  "flush_steps interim_text s =
     (if strip interim_text \<noteq> [] then
        s\<lparr>step_content := [],
          trace := trace s @
            [St_markdown Process_steps
               (join [CHR 0x0A, CHR 0x0A] (step_content s @ [interim_text]))]\<rparr>
      else s)"

text \<open>
  One pass through the body of \<^verbatim>\<open>while True\<close> ends in \<^verbatim>\<open>break\<close>, in the next
  iteration, or in an exception, each with the state reached.
\<close>

datatype 'a step = Break 'a | Continue 'a | Raise py_exception 'a

fun state_of :: "'a step \<Rightarrow> 'a" where
  "state_of (Break s) = s"
| "state_of (Continue s) = s"
| "state_of (Raise e s) = s"

text \<open>
  Lines 265-269: a list of function responses that is not empty is sent to the chat, and
  the answer is the next response; an empty list ends the loop.
\<close>

definition send_function_responses ::
  "('v, 'r) world \<Rightarrow> connections \<Rightarrow> 'r function_response list \<Rightarrow> ('v, 'r) loop_state \<Rightarrow>
   ('v, 'r) loop_state step" where
  "send_function_responses w c function_responses s =
     (if function_responses \<noteq> [] then
        (let m = Function_responses function_responses;
             h = chat s @ [m];
             s' = s\<lparr>chat := h, trace := trace s @ [Send_message m]\<rparr>
         in case chat_send_message w (snd (snd (snd c))) h of
              Inl e \<Rightarrow> Raise e s'
            | Inr r \<Rightarrow> Continue (s'\<lparr>response := r\<rparr>))
      else Break s)"

text \<open>Lines 217-269, the body of the loop.\<close>

definition loop_body ::
  "('v, 'r) world \<Rightarrow> connections \<Rightarrow> ('v, 'r) loop_state \<Rightarrow> ('v, 'r) loop_state step" where
  "loop_body w c s =
     (case has_parts (response s) of
        Inl e \<Rightarrow> Raise e s
      | Inr ok \<Rightarrow>
          if \<not> ok then Break s
          else
            let ps = first_parts (response s);
                function_calls = function_calls_of ps
            in
              if function_calls = [] then
                (let text_response = joined_text ps in
                 if strip text_response \<noteq> [] then
                   Break (s\<lparr>final_answer_text := text_response\<rparr>)
                 else Break s)
              else
                let interim_text = joined_text ps;
                    s1 = flush_steps interim_text s
                in
                  (case dispatch w c function_calls [] (trace s1) of
                     Inl (e, tr) \<Rightarrow> Raise e (s1\<lparr>trace := tr\<rparr>)
                   | Inr (function_responses, tr) \<Rightarrow>
                       send_function_responses w c function_responses (s1\<lparr>trace := tr\<rparr>)))"

text \<open>
  The loop itself. \<open>Some (Inr s)\<close>: the loop was left by \<^verbatim>\<open>break\<close> in state \<open>s\<close>;
  \<open>Some (Inl (e, s))\<close>: the exception \<open>e\<close> was raised in state \<open>s\<close>; \<open>None\<close>: the loop
  runs forever.
\<close>

partial_function (option) processing_loop ::
  "('v, 'r) world \<Rightarrow> connections \<Rightarrow> ('v, 'r) loop_state \<Rightarrow>
   ((py_exception \<times> ('v, 'r) loop_state) + ('v, 'r) loop_state) option"
where
  "processing_loop w c s =
     (case loop_body w c s of
        Break s' \<Rightarrow> Some (Inr s')
      | Raise e s' \<Rightarrow> Some (Inl (e, s'))
      | Continue s' \<Rightarrow> processing_loop w c s')"

subsection \<open>main (lines 60-283)\<close>

text \<open>
  Lines 271-279: the text shown as the answer, and the two calls that show it. The test
  of line 271 is the one of the loop, with the same exception.
\<close>

definition answer_text :: "('v, 'r) loop_state \<Rightarrow> py_exception + string" where
  "answer_text s =
     (case has_parts (response s) of
        Inl e \<Rightarrow> Inl e
      | Inr ok \<Rightarrow>
          Inr (if ok \<and> strip (joined_text (first_parts (response s))) \<noteq> []
               then joined_text (first_parts (response s))
               else final_answer_text s))"

definition show_answer ::
  "('v, 'r) loop_state \<Rightarrow> (py_exception \<times> ('v, 'r) effect list) + ('v, 'r) effect list" where
  "show_answer s =
     (case answer_text s of
        Inl e \<Rightarrow> Inl (e, trace s)
      | Inr final_text \<Rightarrow>
          Inr (trace s @ [St_subheader Answer_container ''Answer'',
                          St_markdown Answer_container final_text]))"

text \<open>
  Lines 83-279, the body of the \<^verbatim>\<open>try\<close> statement: \<open>Inl (e, tr)\<close> when \<open>e\<close> is raised
  after the effects \<open>tr\<close>, \<open>Inr tr\<close> when the body completes with the effects \<open>tr\<close>.
\<close>

definition try_body ::
  "('v, 'r) world \<Rightarrow> connections \<Rightarrow>
   ((py_exception \<times> ('v, 'r) effect list) + ('v, 'r) effect list) option" where
  "try_body w c =
     (let user_query = text_input w;
          h = [User_text user_query]
      in case chats_create w (snd (snd (snd c))) of
           Some e \<Rightarrow> Some (Inl (e, []))
         | None \<Rightarrow>
             (case chat_send_message w (snd (snd (snd c))) h of
                Inl e \<Rightarrow> Some (Inl (e, [Send_message (User_text user_query)]))
              | Inr r \<Rightarrow>
                  (case processing_loop w c
                          \<lparr>response = r, step_content = [], final_answer_text = [], chat = h,
                           trace = [Send_message (User_text user_query),
                                    St_subheader Main_container ''Your Question'',
                                    St_write Main_container user_query]\<rparr> of
                     None \<Rightarrow> None
                   | Some (Inl (e, s)) \<Rightarrow> Some (Inl (e, trace s))
                   | Some (Inr s) \<Rightarrow> Some (show_answer s))))"

text \<open>Lines 82-283: the \<^verbatim>\<open>try\<close> statement with its handler, which calls \<^verbatim>\<open>st.error\<close>.\<close>

definition process_question ::
  "('v, 'r) world \<Rightarrow> connections \<Rightarrow> ('v, 'r) effect list option" where
  "process_question w c =
     (case try_body w c of
        None \<Rightarrow> None
      | Some (Inl (e, tr)) \<Rightarrow> Some (tr @ [St_error (''An error occurred: '' @ exc_text e)])
      | Some (Inr tr) \<Rightarrow> Some tr)"

text \<open>
  One run of the script. \<open>Some (Inr tr)\<close>: \<^verbatim>\<open>main\<close> returns after the effects \<open>tr\<close>;
  \<open>Some (Inl e)\<close>: the exception \<open>e\<close> leaves \<^verbatim>\<open>main\<close> uncaught; \<open>None\<close>: \<^verbatim>\<open>main\<close> never
  returns.
\<close>

definition main :: "('v, 'r) world \<Rightarrow> (py_exception + ('v, 'r) effect list) option" where
  "main w =
     (case setup_connections (secrets w) of
        Inl e \<Rightarrow> Some (Inl e)
      | Inr c \<Rightarrow>
          if button w then
            if text_input w = [] then Some (Inr [St_warning ''Please enter a question first''])
            else map_option Inr (process_question w c)
          else Some (Inr []))"

subsection \<open>Notions used in the statements\<close>

text \<open>
  A valid tool call names the registered tool and carries a \<^verbatim>\<open>query\<close> argument: it is
  a call for which the test of line 252 is true. \<open>valid_queries\<close> lists the queries of
  the valid calls, in the order of the calls. A response asks again when it has function
  calls and all of them are valid.
\<close>

definition query_of :: "'v function_call \<Rightarrow> 'v option" where
  "query_of func_call = (case args func_call of None \<Rightarrow> None | Some a \<Rightarrow> a ''query'')"

definition valid_call :: "'v function_call \<Rightarrow> bool" where
  "valid_call func_call =
     (name func_call = Some ''run_cypher_query'' \<and> query_of func_call \<noteq> None)"

definition valid_queries :: "'v function_call list \<Rightarrow> 'v list" where
  "valid_queries calls = List.map_filter query_of (filter valid_call calls)"

definition asks_again :: "'v response \<Rightarrow> bool" where
  "asks_again r =
     (function_calls_of (first_parts r) \<noteq> [] \<and>
      list_all valid_call (function_calls_of (first_parts r)))"

text \<open>
  A function response answers a function call when it carries the name of the call and
  holds, under the key \<^verbatim>\<open>results\<close>, what \<^verbatim>\<open>run_cypher_query\<close> returns for the query of
  the call.
\<close>

definition answers ::
  "('v, 'r) world \<Rightarrow> connections \<Rightarrow> 'r function_response \<Rightarrow> 'v function_call \<Rightarrow> bool" where
  "answers w c fr func_call =
     (Some (fr_name fr) = name func_call \<and>
      (case query_of func_call of
         None \<Rightarrow> False
       | Some q \<Rightarrow>
           (case run_cypher_query w q (fst c) (fst (snd c)) (fst (snd (snd c))) of
              Inl e \<Rightarrow> False
            | Inr data \<Rightarrow> fr_response fr = [(''results'', data)])))"

text \<open>
  Readings of a trace: the messages sent to the chat, the queries given to
  \<^verbatim>\<open>run_cypher_query\<close>, and the texts of the error boxes, each in order.
\<close>

fun sent :: "('v, 'r) effect list \<Rightarrow> 'r message list" where
  "sent [] = []"
| "sent (Send_message m # tr) = m # sent tr"
| "sent (x # tr) = sent tr"

fun queries :: "('v, 'r) effect list \<Rightarrow> 'v list" where
  "queries [] = []"
| "queries (Neo4j_query q # tr) = q # queries tr"
| "queries (x # tr) = queries tr"

fun error_boxes :: "('v, 'r) effect list \<Rightarrow> string list" where
  "error_boxes [] = []"
| "error_boxes (St_error t # tr) = t # error_boxes tr"
| "error_boxes (x # tr) = error_boxes tr"

subsection \<open>Example worlds\<close>

text \<open>
  Concrete worlds on which the definitions are run: queries are strings, a result list
  is a list of strings. All secrets are present unless said otherwise, the question is
  typed and the button pressed.
\<close>

definition good_secrets :: "string \<Rightarrow> py_exception + string" where
  "good_secrets k =
     (if k = ''NEO4J_URI'' then Inr ''bolt://graph:7687''
      else if k = ''NEO4J_USER'' then Inr ''neo4j''
      else if k = ''NEO4J_PASSWORD'' then Inr ''secret''
      else if k = ''api_key'' then Inr ''key''
      else Inl (External k))"

definition no_api_key :: "string \<Rightarrow> py_exception + string" where
  "no_api_key k = (if k = ''api_key'' then Inl (External k) else good_secrets k)"

definition good_connections :: connections where
  "good_connections = (''bolt://graph:7687'', ''neo4j'', ''secret'', ''key'')"

definition text_part :: "string \<Rightarrow> string part" where
  "text_part t = \<lparr>part_text = Some t, function_call = None\<rparr>"

definition call_part :: "string \<Rightarrow> (string \<rightharpoonup> string) \<Rightarrow> string part" where
  "call_part n a =
     \<lparr>part_text = None, function_call = Some \<lparr>name = Some n, args = Some a\<rparr>\<rparr>"

definition reply :: "string part list \<Rightarrow> string response" where
  "reply ps = \<lparr>candidates = Some [\<lparr>content = Some \<lparr>parts = Some ps\<rparr>\<rparr>]\<rparr>"

definition echo_driver :: "string \<Rightarrow> py_exception + string list" where
  "echo_driver q = Inr [q]"

definition broken_driver :: "string \<Rightarrow> py_exception + string list" where
  "broken_driver q = Inl (External ''syntax error'')"

definition example_world ::
  "(string \<Rightarrow> string list message list \<Rightarrow> py_exception + string response) \<Rightarrow>
   (string, string list) world" where
  "example_world chat_fn =
     \<lparr>secrets = good_secrets, text_input = ''Who manages LVMH?'', button = True,
      graph_database_driver = (\<lambda>uri user password. Inr echo_driver),
      chats_create = (\<lambda>key. None),
      chat_send_message = chat_fn\<rparr>"

definition example_state :: "string response \<Rightarrow> (string, string list) loop_state" where
  "example_state r =
     \<lparr>response = r, step_content = [], final_answer_text = [],
      chat = [User_text ''Who manages LVMH?''],
      trace = [Send_message (User_text ''Who manages LVMH?''),
               St_subheader Main_container ''Your Question'',
               St_write Main_container ''Who manages LVMH?'']\<rparr>"

text \<open>A model that asks for the same query in every response.\<close>

definition runaway_world :: "(string, string list) world" where
  "runaway_world =
     example_world (\<lambda>key h.
       Inr (reply [call_part ''run_cypher_query'' [''query'' \<mapsto> ''MATCH (n) RETURN n'']]))"

text \<open>A model that narrates and asks for two queries in every response.\<close>

definition two_calls :: "string response" where
  "two_calls =
     reply [text_part ''Performing Global Search...'',
            call_part ''run_cypher_query'' [''query'' \<mapsto> ''MATCH (c:Chunk) RETURN c''],
            call_part ''run_cypher_query'' [''query'' \<mapsto> ''MATCH (e:Entity) RETURN e'']]"

definition eager_world :: "(string, string list) world" where
  "eager_world = example_world (\<lambda>key h. Inr two_calls)"

text \<open>A model whose only answer is one space.\<close>

definition blank_world :: "(string, string list) world" where
  "blank_world = example_world (\<lambda>key h. Inr (reply [text_part '' '']))"

text \<open>A model that cannot be reached.\<close>

definition quota_world :: "(string, string list) world" where
  "quota_world = example_world (\<lambda>key h. Inl (External ''429 RESOURCE_EXHAUSTED''))"

text \<open>A model that asks for one query and cannot be reached after that.\<close>

definition dropped_world :: "(string, string list) world" where
  "dropped_world =
     example_world (\<lambda>key h.
       if length h = 1
       then Inr (reply [call_part ''run_cypher_query'' [''query'' \<mapsto> ''MATCH (n) RETURN n'']])
       else Inl (External ''503 UNAVAILABLE''))"

text \<open>A model whose response has no candidates, and one whose answer is the empty text.\<close>

definition silent_world :: "(string, string list) world" where
  "silent_world = example_world (\<lambda>key h. Inr \<lparr>candidates = None\<rparr>)"

definition empty_text_world :: "(string, string list) world" where
  "empty_text_world = example_world (\<lambda>key h. Inr (reply [text_part []]))"

text \<open>A model that answers in text whatever it is sent.\<close>

definition one_trip_world :: "(string, string list) world" where
  "one_trip_world =
     example_world (\<lambda>key h. Inr (reply [text_part ''**Zenith Textiles is a vendor.**'']))"

text \<open>
  A model whose response has one candidate without content, as the service sends when it
  stops a generation before any part is written.
\<close>

definition no_content :: "string response" where
  "no_content = \<lparr>candidates = Some [\<lparr>content = None\<rparr>]\<rparr>"

definition no_content_world :: "(string, string list) world" where
  "no_content_world = example_world (\<lambda>key h. Inr no_content)"

text \<open>A model that calls the registered tool without arguments.\<close>

definition no_args :: "string response" where
  "no_args =
     \<lparr>candidates = Some [\<lparr>content = Some \<lparr>parts = Some
        [\<lparr>part_text = None,
          function_call = Some \<lparr>name = Some ''run_cypher_query'', args = None\<rparr>\<rparr>]\<rparr>\<rparr>]\<rparr>"

definition no_args_world :: "(string, string list) world" where
  "no_args_world = example_world (\<lambda>key h. Inr no_args)"

text \<open>A world whose database rejects every query, and one without the API key.\<close>

definition broken_db_world :: "(string, string list) world" where
  "broken_db_world =
     (example_world (\<lambda>key h. Inr (reply [text_part ''done''])))
       \<lparr>graph_database_driver := (\<lambda>uri user password. Inr broken_driver)\<rparr>"

definition no_api_key_world :: "(string, string list) world" where
  "no_api_key_world =
     (example_world (\<lambda>key h. Inr (reply [text_part ''done''])))\<lparr>secrets := no_api_key\<rparr>"

text \<open>
  A world whose secret \<^verbatim>\<open>NEO4J_URI\<close> has a scheme that the Neo4j driver does not
  support, so that \<^verbatim>\<open>GraphDatabase.driver\<close> raises; the model asks for two queries.
\<close>

definition bad_uri_secrets :: "string \<Rightarrow> py_exception + string" where
  "bad_uri_secrets k = (if k = ''NEO4J_URI'' then Inr ''http://graph:7474'' else good_secrets k)"

definition bad_uri_connections :: connections where
  "bad_uri_connections = (''http://graph:7474'', ''neo4j'', ''secret'', ''key'')"

definition bad_uri_world :: "(string, string list) world" where
  "bad_uri_world =
     (example_world (\<lambda>key h. Inr two_calls))
       \<lparr>secrets := bad_uri_secrets,
        graph_database_driver :=
          (\<lambda>uri user password. Inl (External ''URI scheme http is not supported''))\<rparr>"

section \<open>Auxiliary lemmas\<close>

subsection \<open>Strings and parts\<close>

lemma join_empty: "join [] xs = concat xs"
  by (induction xs rule: induct_list012) auto

lemma strip_Nil: "strip [] = []"
  by (simp add: strip_def)

lemma function_calls_of_Nil: "function_calls_of [] = []"
  by (simp add: function_calls_of_def)

lemma joined_text_Nil: "joined_text [] = []"
  by (simp add: joined_text_def)

lemma joined_text_concat: "joined_text ps = concat (List.map_filter truthy_text ps)"
  by (simp add: joined_text_def join_empty)

lemma has_parts_True: "has_parts r = Inr True \<longleftrightarrow> first_parts r \<noteq> []"
  by (auto simp: has_parts_def first_parts_def split: option.splits list.splits)

lemma has_parts_False: "has_parts r = Inr False \<Longrightarrow> first_parts r = []"
  by (auto simp: has_parts_def first_parts_def split: option.splits list.splits)

lemma has_parts_raises: "has_parts r = Inl e \<Longrightarrow> e = AttributeError ''parts''"
  by (auto simp: has_parts_def split: option.splits list.splits)

lemma calls_imp_parts:
  "function_calls_of (first_parts r) \<noteq> [] \<Longrightarrow> has_parts r = Inr True"
  by (auto simp: has_parts_True function_calls_of_Nil)

subsection \<open>run_cypher_query and the dispatch of the function calls\<close>

lemma run_cypher_query_driver:
  "graph_database_driver w uri user password = Inr driver \<Longrightarrow>
   run_cypher_query w q uri user password =
     Inr (case driver q of Inl e \<Rightarrow> Dumps_dict [(''error'', exc_text e)]
          | Inr result_list \<Rightarrow> Dumps_list result_list)"
  by (simp add: run_cypher_query_def split: sum.splits)

lemma run_cypher_query_no_driver:
  "graph_database_driver w uri user password = Inl e \<Longrightarrow>
   run_cypher_query w q uri user password = Inl e"
  by (simp add: run_cypher_query_def)

lemma valid_call_query: "valid_call fc \<Longrightarrow> \<exists>q. query_of fc = Some q"
  by (auto simp: valid_call_def)

lemma valid_queries_Nil: "valid_queries [] = []"
  by (simp add: valid_queries_def map_filter_simps)

lemma valid_queries_valid:
  "valid_call fc \<Longrightarrow> query_of fc = Some q \<Longrightarrow>
   valid_queries (fc # calls) = q # valid_queries calls"
  by (simp add: valid_queries_def map_filter_simps)

lemma valid_queries_invalid:
  "\<not> valid_call fc \<Longrightarrow> valid_queries (fc # calls) = valid_queries calls"
  by (simp add: valid_queries_def)

lemma dispatch_valid:
  "valid_call fc \<Longrightarrow> query_of fc = Some q \<Longrightarrow>
   run_cypher_query w q (fst c) (fst (snd c)) (fst (snd (snd c))) = Inr data \<Longrightarrow>
   dispatch w c (fc # calls) acc tr =
     dispatch w c calls
       (acc @ [\<lparr>fr_name = ''run_cypher_query'', fr_response = [(''results'', data)]\<rparr>])
       (tr @ [Neo4j_query q])"
  by (auto simp: valid_call_def query_of_def split: option.splits)

lemma dispatch_valid_raises:
  "valid_call fc \<Longrightarrow> query_of fc = Some q \<Longrightarrow>
   run_cypher_query w q (fst c) (fst (snd c)) (fst (snd (snd c))) = Inl e \<Longrightarrow>
   dispatch w c (fc # calls) acc tr = Inl (e, tr @ [Neo4j_query q])"
  by (auto simp: valid_call_def query_of_def split: option.splits)

lemma dispatch_no_args:
  "name fc = Some ''run_cypher_query'' \<Longrightarrow> args fc = None \<Longrightarrow>
   dispatch w c (fc # calls) acc tr = Inl (TypeError ''NoneType'', tr)"
  by simp

lemma dispatch_skip:
  "\<not> valid_call fc \<Longrightarrow> \<not> (name fc = Some ''run_cypher_query'' \<and> args fc = None) \<Longrightarrow>
   dispatch w c (fc # calls) acc tr = dispatch w c calls acc tr"
  by (auto simp: valid_call_def query_of_def split: option.splits)

text \<open>
  When the dispatch raises, it has added only queries to the trace. When it returns, it
  has run the query of every valid call, in order, and has answered each valid call under
  the name of the call.
\<close>

lemma dispatch_raises:
  "dispatch w c calls acc tr = Inl (e, tr') \<Longrightarrow> \<exists>qs. tr' = tr @ map Neo4j_query qs"
proof (induction calls arbitrary: acc tr)
  case Nil
  then show ?case by simp
next
  case (Cons fc calls)
  show ?case
  proof (cases "valid_call fc")
    case True
    then obtain q where q: "query_of fc = Some q" using valid_call_query by blast
    show ?thesis
    proof (cases "run_cypher_query w q (fst c) (fst (snd c)) (fst (snd (snd c)))")
      case (Inl e0)
      from Cons.prems have "tr' = tr @ map Neo4j_query [q]"
        by (simp add: dispatch_valid_raises[OF True q Inl] del: dispatch.simps)
      then show ?thesis by blast
    next
      case (Inr data)
      from Cons.prems have
        "dispatch w c calls
           (acc @ [\<lparr>fr_name = ''run_cypher_query'', fr_response = [(''results'', data)]\<rparr>])
           (tr @ [Neo4j_query q]) = Inl (e, tr')"
        by (simp only: dispatch_valid[OF True q Inr])
      from Cons.IH[OF this] obtain qs where "tr' = (tr @ [Neo4j_query q]) @ map Neo4j_query qs"
        by blast
      then have "tr' = tr @ map Neo4j_query (q # qs)" by simp
      then show ?thesis by blast
    qed
  next
    case False
    show ?thesis
    proof (cases "name fc = Some ''run_cypher_query'' \<and> args fc = None")
      case True
      with Cons.prems have "tr' = tr @ map Neo4j_query []"
        by (simp add: dispatch_no_args del: dispatch.simps)
      then show ?thesis by blast
    next
      case no_raise: False
      from Cons.prems have "dispatch w c calls acc tr = Inl (e, tr')"
        by (simp only: dispatch_skip[OF False no_raise])
      then show ?thesis by (rule Cons.IH)
    qed
  qed
qed

lemma dispatch_returns:
  "dispatch w c calls acc tr = Inr (frs, tr') \<Longrightarrow>
   \<exists>new. tr' = tr @ map Neo4j_query (valid_queries calls) \<and> frs = acc @ new \<and>
     map (\<lambda>fr. Some (fr_name fr)) new = map name (filter valid_call calls)"
proof (induction calls arbitrary: acc tr)
  case Nil
  then show ?case by (simp add: valid_queries_Nil)
next
  case (Cons fc calls)
  show ?case
  proof (cases "valid_call fc")
    case True
    then obtain q where q: "query_of fc = Some q" using valid_call_query by blast
    from True have n: "name fc = Some ''run_cypher_query''" by (simp add: valid_call_def)
    show ?thesis
    proof (cases "run_cypher_query w q (fst c) (fst (snd c)) (fst (snd (snd c)))")
      case (Inl e0)
      from Cons.prems show ?thesis
        by (simp add: dispatch_valid_raises[OF True q Inl] del: dispatch.simps)
    next
      case (Inr data)
      let ?fr = "\<lparr>fr_name = ''run_cypher_query'', fr_response = [(''results'', data)]\<rparr>"
      from Cons.prems have
        "dispatch w c calls (acc @ [?fr]) (tr @ [Neo4j_query q]) = Inr (frs, tr')"
        by (simp only: dispatch_valid[OF True q Inr])
      from Cons.IH[OF this] obtain new where
        "tr' = (tr @ [Neo4j_query q]) @ map Neo4j_query (valid_queries calls)"
        "frs = (acc @ [?fr]) @ new"
        "map (\<lambda>fr. Some (fr_name fr)) new = map name (filter valid_call calls)" by blast
      then have "tr' = tr @ map Neo4j_query (valid_queries (fc # calls)) \<and>
           frs = acc @ (?fr # new) \<and>
           map (\<lambda>fr. Some (fr_name fr)) (?fr # new) = map name (filter valid_call (fc # calls))"
        using True n by (simp add: valid_queries_valid[OF True q])
      then show ?thesis by blast
    qed
  next
    case False
    show ?thesis
    proof (cases "name fc = Some ''run_cypher_query'' \<and> args fc = None")
      case True
      with Cons.prems show ?thesis
        by (simp add: dispatch_no_args del: dispatch.simps)
    next
      case no_raise: False
      from Cons.prems have "dispatch w c calls acc tr = Inr (frs, tr')"
        by (simp only: dispatch_skip[OF False no_raise])
      from Cons.IH[OF this] show ?thesis
        using False by (simp add: valid_queries_invalid)
    qed
  qed
qed

lemma dispatch_answers:
  "dispatch w c calls acc tr = Inr (frs, tr') \<Longrightarrow>
   \<exists>new. frs = acc @ new \<and> list_all2 (answers w c) new (filter valid_call calls)"
proof (induction calls arbitrary: acc tr)
  case Nil
  then show ?case by simp
next
  case (Cons fc calls)
  show ?case
  proof (cases "valid_call fc")
    case True
    then obtain q where q: "query_of fc = Some q" using valid_call_query by blast
    from True have n: "name fc = Some ''run_cypher_query''" by (simp add: valid_call_def)
    show ?thesis
    proof (cases "run_cypher_query w q (fst c) (fst (snd c)) (fst (snd (snd c)))")
      case (Inl e0)
      from Cons.prems show ?thesis
        by (simp add: dispatch_valid_raises[OF True q Inl] del: dispatch.simps)
    next
      case (Inr data)
      let ?fr = "\<lparr>fr_name = ''run_cypher_query'', fr_response = [(''results'', data)]\<rparr>"
      have a: "answers w c ?fr fc" using n q Inr by (simp add: answers_def)
      from Cons.prems have
        "dispatch w c calls (acc @ [?fr]) (tr @ [Neo4j_query q]) = Inr (frs, tr')"
        by (simp only: dispatch_valid[OF True q Inr])
      from Cons.IH[OF this] obtain new where
        "frs = (acc @ [?fr]) @ new" "list_all2 (answers w c) new (filter valid_call calls)"
        by blast
      then have "frs = acc @ (?fr # new) \<and>
           list_all2 (answers w c) (?fr # new) (filter valid_call (fc # calls))"
        using True a by simp
      then show ?thesis by blast
    qed
  next
    case False
    show ?thesis
    proof (cases "name fc = Some ''run_cypher_query'' \<and> args fc = None")
      case True
      with Cons.prems show ?thesis
        by (simp add: dispatch_no_args del: dispatch.simps)
    next
      case no_raise: False
      from Cons.prems have "dispatch w c calls acc tr = Inr (frs, tr')"
        by (simp only: dispatch_skip[OF False no_raise])
      from Cons.IH[OF this] show ?thesis using False by simp
    qed
  qed
qed

lemma dispatch_all_valid:
  assumes "graph_database_driver w (fst c) (fst (snd c)) (fst (snd (snd c))) = Inr driver"
  shows "list_all valid_call calls \<Longrightarrow>
         \<exists>frs. dispatch w c calls acc tr =
                 Inr (acc @ frs, tr @ map Neo4j_query (valid_queries calls)) \<and>
               length frs = length calls"
proof (induction calls arbitrary: acc tr)
  case Nil
  then show ?case by (simp add: valid_queries_Nil)
next
  case (Cons fc calls)
  from Cons.prems have v: "valid_call fc" and rest: "list_all valid_call calls" by simp_all
  from v obtain q where q: "query_of fc = Some q" using valid_call_query by blast
  obtain data where
    data: "run_cypher_query w q (fst c) (fst (snd c)) (fst (snd (snd c))) = Inr data"
    using run_cypher_query_driver[OF assms] by blast
  let ?fr = "\<lparr>fr_name = ''run_cypher_query'', fr_response = [(''results'', data)]\<rparr>"
  from Cons.IH[OF rest, where acc = "acc @ [?fr]" and tr = "tr @ [Neo4j_query q]"]
  obtain frs where
    "dispatch w c calls (acc @ [?fr]) (tr @ [Neo4j_query q]) =
       Inr ((acc @ [?fr]) @ frs, (tr @ [Neo4j_query q]) @ map Neo4j_query (valid_queries calls))"
    and "length frs = length calls" by blast
  then have "dispatch w c (fc # calls) acc tr =
       Inr (acc @ (?fr # frs), tr @ map Neo4j_query (valid_queries (fc # calls))) \<and>
       length (?fr # frs) = length (fc # calls)"
    by (simp add: dispatch_valid[OF v q data] valid_queries_valid[OF v q] del: dispatch.simps)
  then show ?case by blast
qed

lemma dispatch_invalid:
  "\<forall>fc \<in> set calls. \<not> valid_call fc \<and> \<not> (name fc = Some ''run_cypher_query'' \<and> args fc = None)
   \<Longrightarrow> dispatch w c calls acc tr = Inr (acc, tr)"
proof (induction calls)
  case Nil
  show ?case by simp
next
  case (Cons fc calls)
  then show ?case by (simp add: dispatch_skip del: dispatch.simps)
qed

subsection \<open>Readings of a trace\<close>

lemma sent_append: "sent (xs @ ys) = sent xs @ sent ys"
  by (induction xs rule: sent.induct) simp_all

lemma queries_append: "queries (xs @ ys) = queries xs @ queries ys"
  by (induction xs rule: queries.induct) simp_all

lemma error_boxes_append: "error_boxes (xs @ ys) = error_boxes xs @ error_boxes ys"
  by (induction xs rule: error_boxes.induct) simp_all

lemma sent_queries: "sent (map Neo4j_query qs) = []"
  by (induction qs) simp_all

lemma queries_queries: "queries (map Neo4j_query qs) = qs"
  by (induction qs) simp_all

lemma error_boxes_queries: "error_boxes (map Neo4j_query qs) = []"
  by (induction qs) simp_all

subsection \<open>One pass through the body of the loop\<close>

lemma flush_steps_fields:
  "chat (flush_steps t s) = chat s"
  "response (flush_steps t s) = response s"
  "final_answer_text (flush_steps t s) = final_answer_text s"
  by (simp_all add: flush_steps_def)

lemma flush_steps_trace:
  "sent (trace (flush_steps t s)) = sent (trace s)"
  "queries (trace (flush_steps t s)) = queries (trace s)"
  "error_boxes (trace (flush_steps t s)) = error_boxes (trace s)"
  by (simp_all add: flush_steps_def sent_append queries_append error_boxes_append)

lemma send_function_responses_Nil: "send_function_responses w c [] s = Break s"
  by (simp add: send_function_responses_def)

lemma send_function_responses_trace:
  "trace (state_of (send_function_responses w c frs s)) =
     trace s @ (if frs = [] then [] else [Send_message (Function_responses frs)])"
  by (simp add: send_function_responses_def Let_def split: sum.splits)

lemma send_function_responses_final:
  "final_answer_text (state_of (send_function_responses w c frs s)) = final_answer_text s"
  by (simp add: send_function_responses_def Let_def split: sum.splits)

lemma send_function_responses_Break:
  "send_function_responses w c frs s = Break s' \<Longrightarrow> frs = [] \<and> s' = s"
  by (simp add: send_function_responses_def Let_def split: sum.splits if_splits)

lemma send_function_responses_Continue:
  "frs \<noteq> [] \<Longrightarrow>
   chat_send_message w (snd (snd (snd c))) (chat s @ [Function_responses frs]) = Inr r \<Longrightarrow>
   send_function_responses w c frs s =
     Continue (s\<lparr>chat := chat s @ [Function_responses frs],
                trace := trace s @ [Send_message (Function_responses frs)], response := r\<rparr>)"
  by (simp add: send_function_responses_def Let_def)

lemma send_function_responses_Raise:
  "frs \<noteq> [] \<Longrightarrow>
   chat_send_message w (snd (snd (snd c))) (chat s @ [Function_responses frs]) = Inl e \<Longrightarrow>
   send_function_responses w c frs s =
     Raise e (s\<lparr>chat := chat s @ [Function_responses frs],
               trace := trace s @ [Send_message (Function_responses frs)]\<rparr>)"
  by (simp add: send_function_responses_def Let_def)

lemma loop_body_guard_raises:
  "has_parts (response s) = Inl e \<Longrightarrow> loop_body w c s = Raise e s"
  by (simp add: loop_body_def)

lemma loop_body_no_parts: "has_parts (response s) = Inr False \<Longrightarrow> loop_body w c s = Break s"
  by (simp add: loop_body_def)

lemma loop_body_no_calls:
  assumes "has_parts (response s) = Inr b"
    and "function_calls_of (first_parts (response s)) = []"
  shows "loop_body w c s =
     Break (if strip (joined_text (first_parts (response s))) \<noteq> []
            then s\<lparr>final_answer_text := joined_text (first_parts (response s))\<rparr> else s)"
proof (cases b)
  case True
  with assms show ?thesis by (simp add: loop_body_def Let_def)
next
  case False
  with assms(1) have "first_parts (response s) = []" by (simp add: has_parts_False)
  with False assms(1) show ?thesis
    by (simp add: loop_body_no_parts joined_text_Nil strip_Nil)
qed

lemma loop_body_calls:
  "function_calls_of (first_parts (response s)) \<noteq> [] \<Longrightarrow>
   loop_body w c s =
     (case dispatch w c (function_calls_of (first_parts (response s))) []
             (trace (flush_steps (joined_text (first_parts (response s))) s)) of
        Inl (e, tr) \<Rightarrow> Raise e (flush_steps (joined_text (first_parts (response s))) s\<lparr>trace := tr\<rparr>)
      | Inr (function_responses, tr) \<Rightarrow>
          send_function_responses w c function_responses
            (flush_steps (joined_text (first_parts (response s))) s\<lparr>trace := tr\<rparr>))"
  by (simp add: loop_body_def Let_def calls_imp_parts)

text \<open>What one pass leaves as it was.\<close>

lemma loop_body_error_boxes:
  "error_boxes (trace (state_of (loop_body w c s))) = error_boxes (trace s)"
proof (cases "has_parts (response s)")
  case (Inl e)
  then show ?thesis by (simp add: loop_body_guard_raises)
next
  case (Inr b)
  show ?thesis
  proof (cases "function_calls_of (first_parts (response s)) = []")
    case True
    show ?thesis by (simp add: loop_body_no_calls[OF Inr True])
  next
    case False
    let ?s1 = "flush_steps (joined_text (first_parts (response s))) s"
    show ?thesis
    proof (cases "dispatch w c (function_calls_of (first_parts (response s))) [] (trace ?s1)")
      case (Inl a)
      obtain e tr where a: "a = (e, tr)" by (cases a)
      from Inl a obtain qs where "tr = trace ?s1 @ map Neo4j_query qs"
        using dispatch_raises by blast
      then show ?thesis
        by (simp add: loop_body_calls[OF False] Inl a error_boxes_append error_boxes_queries
              flush_steps_trace)
    next
      case (Inr a)
      obtain frs tr where a: "a = (frs, tr)" by (cases a)
      from Inr a obtain new where "tr = trace ?s1 @ map Neo4j_query (valid_queries
           (function_calls_of (first_parts (response s))))"
        using dispatch_returns by blast
      then show ?thesis
        by (simp add: loop_body_calls[OF False] Inr a send_function_responses_trace
              error_boxes_append error_boxes_queries flush_steps_trace)
    qed
  qed
qed

lemma loop_body_Continue:
  assumes "loop_body w c s = Continue s'"
  shows "final_answer_text s' = final_answer_text s"
proof (cases "has_parts (response s)")
  case (Inl e)
  with assms show ?thesis by (simp add: loop_body_guard_raises)
next
  case (Inr b)
  show ?thesis
  proof (cases "function_calls_of (first_parts (response s)) = []")
    case True
    from assms show ?thesis by (simp add: loop_body_no_calls[OF Inr True] split: if_splits)
  next
    case False
    let ?s1 = "flush_steps (joined_text (first_parts (response s))) s"
    show ?thesis
    proof (cases "dispatch w c (function_calls_of (first_parts (response s))) [] (trace ?s1)")
      case (Inl a)
      obtain e tr where a: "a = (e, tr)" by (cases a)
      from assms show ?thesis by (simp add: loop_body_calls[OF False] Inl a)
    next
      case (Inr a)
      obtain frs tr where a: "a = (frs, tr)" by (cases a)
      from assms have "send_function_responses w c frs (?s1\<lparr>trace := tr\<rparr>) = Continue s'"
        by (simp add: loop_body_calls[OF False] Inr a)
      then have "final_answer_text s' = final_answer_text (?s1\<lparr>trace := tr\<rparr>)"
        using send_function_responses_final[of w c frs "?s1\<lparr>trace := tr\<rparr>"] by simp
      then show ?thesis by (simp add: flush_steps_fields)
    qed
  qed
qed

lemma loop_body_Break:
  assumes "loop_body w c s = Break s'"
  shows "response s' = response s \<and> (\<exists>b. has_parts (response s) = Inr b) \<and>
         (final_answer_text s' = final_answer_text s \<or>
          final_answer_text s' = joined_text (first_parts (response s)) \<and>
          strip (joined_text (first_parts (response s))) \<noteq> [])"
proof (cases "has_parts (response s)")
  case (Inl e)
  with assms show ?thesis by (simp add: loop_body_guard_raises)
next
  case (Inr b)
  show ?thesis
  proof (cases "function_calls_of (first_parts (response s)) = []")
    case True
    from assms Inr show ?thesis
      by (auto simp: loop_body_no_calls[OF Inr True] split: if_splits)
  next
    case False
    let ?s1 = "flush_steps (joined_text (first_parts (response s))) s"
    show ?thesis
    proof (cases "dispatch w c (function_calls_of (first_parts (response s))) [] (trace ?s1)")
      case (Inl a)
      obtain e tr where a: "a = (e, tr)" by (cases a)
      from assms show ?thesis by (simp add: loop_body_calls[OF False] Inl a)
    next
      case inr: (Inr a)
      obtain frs tr where a: "a = (frs, tr)" by (cases a)
      from assms have "send_function_responses w c frs (?s1\<lparr>trace := tr\<rparr>) = Break s'"
        by (simp add: loop_body_calls[OF False] inr a)
      then have "s' = ?s1\<lparr>trace := tr\<rparr>" by (simp add: send_function_responses_Break)
      with Inr show ?thesis by (simp add: flush_steps_fields)
    qed
  qed
qed

subsection \<open>The loop\<close>

lemma processing_loop_break:
  "loop_body w c s = Break s' \<Longrightarrow> processing_loop w c s = Some (Inr s')"
  by (subst processing_loop.simps) simp

lemma processing_loop_raise:
  "loop_body w c s = Raise e s' \<Longrightarrow> processing_loop w c s = Some (Inl (e, s'))"
  by (subst processing_loop.simps) simp

lemma processing_loop_continue:
  "loop_body w c s = Continue s' \<Longrightarrow> processing_loop w c s = processing_loop w c s'"
  by (subst processing_loop.simps) simp

text \<open>
  An invariant of the loop: when the loop returns, its last pass started in a state that
  satisfies every property which holds at the start and is kept by each pass that goes
  on.
\<close>

lemma processing_loop_final:
  assumes run: "processing_loop w c s = Some res" and init: "I s"
    and step: "\<And>s s'. I s \<Longrightarrow> loop_body w c s = Continue s' \<Longrightarrow> I s'"
  shows "\<exists>s0. I s0 \<and>
           (case res of Inr s' \<Rightarrow> loop_body w c s0 = Break s'
            | Inl (e, s') \<Rightarrow> loop_body w c s0 = Raise e s')"
proof -
  let ?Q = "\<lambda>res. \<exists>s0. I s0 \<and>
           (case res of Inr s' \<Rightarrow> loop_body w c s0 = Break s'
            | Inl (e, s') \<Rightarrow> loop_body w c s0 = Raise e s')"
  have "w = w \<and> c = c \<longrightarrow> I s \<longrightarrow> ?Q res"
  proof (rule processing_loop.raw_induct
      [where P = "\<lambda>w' c' s res. w' = w \<and> c' = c \<longrightarrow> I s \<longrightarrow> ?Q res", OF _ run])
    fix f w' c' s res
    assume IH: "\<And>w' c' s res. f w' c' s = Some res \<Longrightarrow> w' = w \<and> c' = c \<longrightarrow> I s \<longrightarrow> ?Q res"
      and eq: "(case loop_body w' c' s of Break s' \<Rightarrow> Some (Inr s')
                | Continue s' \<Rightarrow> f w' c' s' | Raise e s' \<Rightarrow> Some (Inl (e, s'))) = Some res"
    show "w' = w \<and> c' = c \<longrightarrow> I s \<longrightarrow> ?Q res"
    proof (intro impI)
      assume wc: "w' = w \<and> c' = c" and Is: "I s"
      show "?Q res"
      proof (cases "loop_body w c s")
        case (Break s')
        with eq wc have "res = Inr s'" by simp
        with Break Is show ?thesis by auto
      next
        case (Continue s')
        with eq wc have "f w c s' = Some res" by simp
        moreover from step[OF Is Continue] have "I s'" .
        ultimately show ?thesis using IH by blast
      next
        case (Raise e s')
        with eq wc have "res = Inl (e, s')" by simp
        with Raise Is show ?thesis by auto
      qed
    qed
  qed
  with init show ?thesis by blast
qed

text \<open>A loop whose every pass goes on never returns.\<close>

lemma processing_loop_never:
  assumes init: "I s"
    and step: "\<And>s. I s \<Longrightarrow> \<exists>s'. loop_body w c s = Continue s' \<and> I s'"
  shows "processing_loop w c s = None"
proof (rule ccontr)
  assume "processing_loop w c s \<noteq> None"
  then obtain res where run: "processing_loop w c s = Some res" by auto
  have keep: "\<And>s s'. I s \<Longrightarrow> loop_body w c s = Continue s' \<Longrightarrow> I s'"
  proof -
    fix s s' assume a: "I s" and eq: "loop_body w c s = Continue s'"
    from step[OF a] obtain s'' where "loop_body w c s = Continue s''" and s'': "I s''"
      by blast
    with eq have "s' = s''" by simp
    with s'' show "I s'" by simp
  qed
  have "\<exists>s0. I s0 \<and> (case res of Inr s' \<Rightarrow> loop_body w c s0 = Break s'
               | Inl (e, s') \<Rightarrow> loop_body w c s0 = Raise e s')"
    using run init keep by (rule processing_loop_final[where I = I])
  then obtain s0 where s0: "I s0"
    and last: "case res of Inr s' \<Rightarrow> loop_body w c s0 = Break s'
               | Inl (e, s') \<Rightarrow> loop_body w c s0 = Raise e s'" by blast
  from step[OF s0] obtain s1 where cont: "loop_body w c s0 = Continue s1" by blast
  show False
  proof (cases res)
    case (Inl a)
    obtain e s' where "a = (e, s')" by (cases a)
    with last Inl have "loop_body w c s0 = Raise e s'" by simp
    with cont show ?thesis by simp
  next
    case (Inr s')
    with last have "loop_body w c s0 = Break s'" by simp
    with cont show ?thesis by simp
  qed
qed

text \<open>
  A response that asks again is answered by a send, when the driver can be made; the pass
  goes on with the response to that send.
\<close>

lemma loop_body_asks_again:
  assumes drv: "graph_database_driver w (fst c) (fst (snd c)) (fst (snd (snd c))) = Inr driver"
    and ask: "asks_again (response s)"
    and total: "\<And>h. \<exists>r. chat_send_message w (snd (snd (snd c))) h = Inr r \<and> asks_again r"
  shows "\<exists>s'. loop_body w c s = Continue s' \<and> asks_again (response s')"
proof -
  let ?calls = "function_calls_of (first_parts (response s))"
  let ?s1 = "flush_steps (joined_text (first_parts (response s))) s"
  from ask have ne: "?calls \<noteq> []" and allv: "list_all valid_call ?calls"
    by (simp_all add: asks_again_def)
  from dispatch_all_valid[OF drv allv, where acc = "[]" and tr = "trace ?s1"]
  obtain frs where
    d: "dispatch w c ?calls [] (trace ?s1) =
          Inr (frs, trace ?s1 @ map Neo4j_query (valid_queries ?calls))"
    and len: "length frs = length ?calls" by auto
  let ?s2 = "?s1\<lparr>trace := trace ?s1 @ map Neo4j_query (valid_queries ?calls)\<rparr>"
  from len ne have nonempty: "frs \<noteq> []" by auto
  from total obtain r where
    r: "chat_send_message w (snd (snd (snd c))) (chat ?s2 @ [Function_responses frs]) = Inr r"
    and again: "asks_again r" by blast
  have "loop_body w c s = send_function_responses w c frs ?s2"
    by (simp add: loop_body_calls[OF ne] d)
  with send_function_responses_Continue[OF nonempty r] again
  show ?thesis by simp
qed

subsection \<open>setup_connections\<close>

lemma setup_connections_cases:
  "setup_connections f =
     (case f ''NEO4J_URI'' of Inl e \<Rightarrow> Inl (UnboundLocalError ''neo4j_uri'')
      | Inr a \<Rightarrow>
     (case f ''NEO4J_USER'' of Inl e \<Rightarrow> Inl (UnboundLocalError ''neo4j_user'')
      | Inr b \<Rightarrow>
     (case f ''NEO4J_PASSWORD'' of Inl e \<Rightarrow> Inl (UnboundLocalError ''neo4j_password'')
      | Inr c \<Rightarrow>
     (case f ''api_key'' of Inl e \<Rightarrow> Inl (UnboundLocalError ''google_api_key'')
      | Inr d \<Rightarrow> Inr (a, b, c, d)))))"
  by (simp add: setup_connections_def load_secrets_def read_local_def unassigned_def
        split: sum.splits)

subsection \<open>The example worlds\<close>

lemma first_parts_reply: "first_parts (reply ps) = ps"
  by (simp add: first_parts_def reply_def)

lemma has_parts_reply: "has_parts (reply ps) = Inr (ps \<noteq> [])"
  by (simp add: has_parts_def reply_def)

lemma function_calls_of_text_part:
  "function_calls_of (text_part t # ps) = function_calls_of ps"
  by (simp add: function_calls_of_def text_part_def map_filter_simps)

lemma function_calls_of_call_part:
  "function_calls_of (call_part n a # ps) =
     \<lparr>name = Some n, args = Some a\<rparr> # function_calls_of ps"
  by (simp add: function_calls_of_def call_part_def map_filter_simps)

lemma joined_text_text_part: "joined_text (text_part t # ps) = t @ joined_text ps"
  by (simp add: joined_text_concat truthy_text_def text_part_def map_filter_simps)

lemma joined_text_call_part: "joined_text (call_part n a # ps) = joined_text ps"
  by (simp add: joined_text_concat truthy_text_def call_part_def map_filter_simps)

lemma valid_call_query_arg:
  "valid_call \<lparr>name = Some ''run_cypher_query'', args = Some [''query'' \<mapsto> q]\<rparr>"
  "query_of \<lparr>name = Some ''run_cypher_query'', args = Some [''query'' \<mapsto> q]\<rparr> = Some q"
  by (simp_all add: valid_call_def query_of_def)

lemma example_world_fields:
  "secrets (example_world f) = good_secrets"
  "text_input (example_world f) = ''Who manages LVMH?''"
  "button (example_world f)"
  "graph_database_driver (example_world f) uri user password = Inr echo_driver"
  "chats_create (example_world f) key = None"
  "chat_send_message (example_world f) = f"
  by (simp_all add: example_world_def)

lemma setup_connections_good: "setup_connections good_secrets = Inr good_connections"
  by (simp add: setup_connections_cases good_secrets_def good_connections_def)

lemma setup_connections_bad_uri: "setup_connections bad_uri_secrets = Inr bad_uri_connections"
  by (simp add: setup_connections_cases bad_uri_secrets_def good_secrets_def
        bad_uri_connections_def)

lemma good_connections_fields:
  "fst good_connections = ''bolt://graph:7687''"
  "fst (snd good_connections) = ''neo4j''"
  "fst (snd (snd good_connections)) = ''secret''"
  "snd (snd (snd good_connections)) = ''key''"
  by (simp_all add: good_connections_def)

lemma bad_uri_connections_fields:
  "fst bad_uri_connections = ''http://graph:7474''"
  "fst (snd bad_uri_connections) = ''neo4j''"
  "fst (snd (snd bad_uri_connections)) = ''secret''"
  "snd (snd (snd bad_uri_connections)) = ''key''"
  by (simp_all add: bad_uri_connections_def)

lemma example_state_fields:
  "response (example_state r) = r"
  "step_content (example_state r) = []"
  "final_answer_text (example_state r) = []"
  "chat (example_state r) = [User_text ''Who manages LVMH?'']"
  "trace (example_state r) =
     [Send_message (User_text ''Who manages LVMH?''),
      St_subheader Main_container ''Your Question'',
      St_write Main_container ''Who manages LVMH?'']"
  by (simp_all add: example_state_def)

text \<open>A run of the script in which the question of the examples is asked.\<close>

lemma main_asked:
  assumes "setup_connections (secrets w) = Inr c" and "button w"
    and "text_input w = ''Who manages LVMH?''"
  shows "main w = map_option Inr (process_question w c)"
  using assms by (simp add: main_def)

lemma try_body_asked:
  assumes "chats_create w (snd (snd (snd c))) = None"
    and "text_input w = ''Who manages LVMH?''"
    and "chat_send_message w (snd (snd (snd c))) [User_text ''Who manages LVMH?''] = Inr r"
  shows "try_body w c =
           (case processing_loop w c (example_state r) of
              None \<Rightarrow> None
            | Some (Inl (e, s)) \<Rightarrow> Some (Inl (e, trace s))
            | Some (Inr s) \<Rightarrow> Some (show_answer s))"
  using assms by (simp add: try_body_def example_state_def Let_def)

lemma try_body_not_sent:
  assumes "chats_create w (snd (snd (snd c))) = None"
    and "chat_send_message w (snd (snd (snd c))) [User_text (text_input w)] = Inl e"
  shows "try_body w c = Some (Inl (e, [Send_message (User_text (text_input w))]))"
  using assms by (simp add: try_body_def Let_def)

subsection \<open>Lemmas for the claims\<close>

lemma strip_blank: "strip '' '' = []"
  by (simp add: strip_def py_isspace_def)

lemma strip_starts_ends:
  "\<not> py_isspace x \<Longrightarrow> \<not> py_isspace y \<Longrightarrow> strip (x # xs @ [y]) \<noteq> []"
  by (simp add: strip_def)

lemma processing_loop_asks_again:
  assumes drv: "graph_database_driver w (fst c) (fst (snd c)) (fst (snd (snd c))) = Inr driver"
    and total: "\<And>h. \<exists>r. chat_send_message w (snd (snd (snd c))) h = Inr r \<and> asks_again r"
    and ask: "asks_again (response s)"
  shows "processing_loop w c s = None"
proof (rule processing_loop_never[where I = "\<lambda>s. asks_again (response s)"])
  show "asks_again (response s)" by (rule ask)
next
  fix t :: "('a, 'b) loop_state"
  assume "asks_again (response t)"
  with drv show "\<exists>s'. loop_body w c t = Continue s' \<and> asks_again (response s')"
    using total by (rule loop_body_asks_again)
qed

lemma processing_loop_error_boxes:
  assumes run: "processing_loop w c s = Some res" and init: "error_boxes (trace s) = []"
  shows "error_boxes (trace (case res of Inl (e, s') \<Rightarrow> s' | Inr s' \<Rightarrow> s')) = []"
proof -
  have keep: "\<And>s s'. error_boxes (trace s) = [] \<Longrightarrow> loop_body w c s = Continue s' \<Longrightarrow>
                error_boxes (trace s') = []"
  proof -
    fix s s' :: "('a, 'b) loop_state"
    assume a: "error_boxes (trace s) = []" and eq: "loop_body w c s = Continue s'"
    from loop_body_error_boxes[of w c s] eq a show "error_boxes (trace s') = []" by simp
  qed
  have "\<exists>s0. error_boxes (trace s0) = [] \<and>
          (case res of Inr s' \<Rightarrow> loop_body w c s0 = Break s'
           | Inl (e, s') \<Rightarrow> loop_body w c s0 = Raise e s')"
    using run init keep
    by (rule processing_loop_final[where I = "\<lambda>s. error_boxes (trace s) = []"])
  then obtain s0 where s0: "error_boxes (trace s0) = []"
    and last: "case res of Inr s' \<Rightarrow> loop_body w c s0 = Break s'
               | Inl (e, s') \<Rightarrow> loop_body w c s0 = Raise e s'" by blast
  show ?thesis
  proof (cases res)
    case (Inl a)
    obtain e s' where a: "a = (e, s')" by (cases a)
    with last Inl have "loop_body w c s0 = Raise e s'" by simp
    with loop_body_error_boxes[of w c s0] s0 Inl a show ?thesis by simp
  next
    case (Inr s')
    with last have "loop_body w c s0 = Break s'" by simp
    with loop_body_error_boxes[of w c s0] s0 Inr show ?thesis by simp
  qed
qed

lemma processing_loop_no_text:
  assumes run: "processing_loop w c s0 = Some (Inr s)" and init: "final_answer_text s0 = []"
  shows "(\<exists>b. has_parts (response s) = Inr b) \<and>
         (strip (joined_text (first_parts (response s))) = [] \<longrightarrow> final_answer_text s = [])"
proof -
  have keep: "\<And>s s'. final_answer_text s = [] \<Longrightarrow> loop_body w c s = Continue s' \<Longrightarrow>
                final_answer_text s' = []"
  proof -
    fix s s' :: "('a, 'b) loop_state"
    assume a: "final_answer_text s = []" and eq: "loop_body w c s = Continue s'"
    from loop_body_Continue[OF eq] a show "final_answer_text s' = []" by simp
  qed
  have "\<exists>s1. final_answer_text s1 = [] \<and>
          (case Inr s of Inr s' \<Rightarrow> loop_body w c s1 = Break s'
           | Inl (e, s') \<Rightarrow> loop_body w c s1 = Raise e s')"
    using run init keep
    by (rule processing_loop_final[where I = "\<lambda>s. final_answer_text s = []"])
  then obtain s1 where s1: "final_answer_text s1 = []" and last: "loop_body w c s1 = Break s"
    by auto
  from loop_body_Break[OF last] s1 show ?thesis by auto
qed

lemma loop_body_dispatch_raises:
  assumes "function_calls_of (first_parts (response s)) \<noteq> []"
    and "dispatch w c (function_calls_of (first_parts (response s))) []
           (trace (flush_steps (joined_text (first_parts (response s))) s)) = Inl (e, tr)"
  shows "loop_body w c s =
           Raise e (flush_steps (joined_text (first_parts (response s))) s\<lparr>trace := tr\<rparr>)"
  by (simp add: loop_body_calls[OF assms(1)] assms(2))

text \<open>
  A run of the script in which the question of the examples is asked and the first pass
  of the loop raises.
\<close>

lemma main_first_pass_raises:
  assumes "setup_connections (secrets w) = Inr c" and "button w"
    and "text_input w = ''Who manages LVMH?''"
    and "chats_create w (snd (snd (snd c))) = None"
    and "chat_send_message w (snd (snd (snd c))) [User_text ''Who manages LVMH?''] = Inr r"
    and "loop_body w c (example_state r) = Raise e s'"
  shows "main w = Some (Inr (trace s' @ [St_error (''An error occurred: '' @ exc_text e)]))"
proof -
  have "processing_loop w c (example_state r) = Some (Inl (e, s'))"
    using assms(6) by (rule processing_loop_raise)
  then have "try_body w c = Some (Inl (e, trace s'))"
    by (simp add: try_body_asked[OF assms(4) assms(3) assms(5)])
  then have "process_question w c =
               Some (trace s' @ [St_error (''An error occurred: '' @ exc_text e)])"
    by (simp add: process_question_def)
  then show ?thesis by (simp add: main_asked[OF assms(1) assms(2) assms(3)])
qed

text \<open>The pass of the world \<open>dropped_world\<close> in which the second send raises.\<close>

lemma dropped_world_ask:
  "loop_body dropped_world good_connections
     (example_state (reply [call_part ''run_cypher_query'' [''query'' \<mapsto> ''MATCH (n) RETURN n'']])) =
   Raise (External ''503 UNAVAILABLE'')
     ((example_state (reply [call_part ''run_cypher_query'' [''query'' \<mapsto> ''MATCH (n) RETURN n'']]))
        \<lparr>trace :=
           [Send_message (User_text ''Who manages LVMH?''),
            St_subheader Main_container ''Your Question'',
            St_write Main_container ''Who manages LVMH?'',
            Neo4j_query ''MATCH (n) RETURN n''],
         chat :=
           [User_text ''Who manages LVMH?'',
            Function_responses
              [\<lparr>fr_name = ''run_cypher_query'',
                fr_response = [(''results'', Dumps_list [''MATCH (n) RETURN n''])]\<rparr>]],
         trace :=
           [Send_message (User_text ''Who manages LVMH?''),
            St_subheader Main_container ''Your Question'',
            St_write Main_container ''Who manages LVMH?'',
            Neo4j_query ''MATCH (n) RETURN n'',
            Send_message (Function_responses
              [\<lparr>fr_name = ''run_cypher_query'',
                fr_response = [(''results'', Dumps_list [''MATCH (n) RETURN n''])]\<rparr>])]\<rparr>)"
proof -
  let ?q = "''MATCH (n) RETURN n''"
  let ?fc = "\<lparr>name = Some ''run_cypher_query'', args = Some [''query'' \<mapsto> ?q]\<rparr>"
  let ?r = "reply [call_part ''run_cypher_query'' [''query'' \<mapsto> ?q]]"
  let ?s = "example_state ?r"
  let ?fr = "\<lparr>fr_name = ''run_cypher_query'', fr_response = [(''results'', Dumps_list [?q])]\<rparr>"
  have calls: "function_calls_of (first_parts (response ?s)) = [?fc]"
    by (simp add: example_state_fields first_parts_reply function_calls_of_call_part
          function_calls_of_Nil)
  then have ne: "function_calls_of (first_parts (response ?s)) \<noteq> []" by simp
  have jt: "joined_text (first_parts (response ?s)) = []"
    by (simp add: example_state_fields first_parts_reply joined_text_call_part joined_text_Nil)
  have flush: "flush_steps [] ?s = ?s" by (simp add: flush_steps_def strip_Nil)
  have run: "run_cypher_query dropped_world ?q (fst good_connections)
               (fst (snd good_connections)) (fst (snd (snd good_connections))) =
             Inr (Dumps_list [?q])"
    by (simp add: run_cypher_query_def dropped_world_def example_world_fields echo_driver_def)
  have "dispatch dropped_world good_connections [?fc] [] (trace ?s) =
          dispatch dropped_world good_connections [] ([] @ [?fr]) (trace ?s @ [Neo4j_query ?q])"
    using valid_call_query_arg run by (rule dispatch_valid)
  then have d: "dispatch dropped_world good_connections [?fc] [] (trace ?s) =
          Inr ([?fr], trace ?s @ [Neo4j_query ?q])" by simp
  have send: "chat_send_message dropped_world (snd (snd (snd good_connections)))
                (chat (?s\<lparr>trace := trace ?s @ [Neo4j_query ?q]\<rparr>) @ [Function_responses [?fr]]) =
              Inl (External ''503 UNAVAILABLE'')"
    by (simp add: dropped_world_def example_world_fields example_state_fields)
  have "loop_body dropped_world good_connections ?s =
          send_function_responses dropped_world good_connections [?fr]
            (?s\<lparr>trace := trace ?s @ [Neo4j_query ?q]\<rparr>)"
    by (simp only: loop_body_calls[OF ne] calls jt flush d sum.case prod.case)
  also have "\<dots> = Raise (External ''503 UNAVAILABLE'')
      (?s\<lparr>trace := trace ?s @ [Neo4j_query ?q],
          chat := chat (?s\<lparr>trace := trace ?s @ [Neo4j_query ?q]\<rparr>) @ [Function_responses [?fr]],
          trace := trace (?s\<lparr>trace := trace ?s @ [Neo4j_query ?q]\<rparr>) @
                     [Send_message (Function_responses [?fr])]\<rparr>)"
    using send by (simp add: send_function_responses_def Let_def)
  finally show ?thesis by (simp add: example_state_fields)
qed

section \<open>The claims\<close>

subsection \<open>C1: the number of round trips\<close>

text \<open>
  Claim C1 says that the loop ends after at most a configured number of round trips and
  then tells the user that the question could not be resolved. The loop of lines 216-269
  has no counter and no such message. In the world \<open>runaway_world\<close>, where the model asks
  for a query in every response, \<^verbatim>\<open>main\<close> never returns.
\<close>

theorem runaway_loop_never_returns: "main runaway_world = None"
proof -
  let ?r = "reply [call_part ''run_cypher_query'' [''query'' \<mapsto> ''MATCH (n) RETURN n'']]"
  have ask: "asks_again ?r"
    by (simp add: asks_again_def first_parts_reply function_calls_of_call_part
          function_calls_of_Nil valid_call_query_arg)
  have drv: "graph_database_driver runaway_world (fst good_connections)
               (fst (snd good_connections)) (fst (snd (snd good_connections))) = Inr echo_driver"
    by (simp add: runaway_world_def example_world_fields)
  have total: "\<And>h. \<exists>r. chat_send_message runaway_world (snd (snd (snd good_connections))) h =
                 Inr r \<and> asks_again r"
    using ask by (simp add: runaway_world_def example_world_fields)
  have "asks_again (response (example_state ?r))"
    using ask by (simp add: example_state_fields)
  with drv total have loop: "processing_loop runaway_world good_connections (example_state ?r) = None"
    by (rule processing_loop_asks_again)
  have "try_body runaway_world good_connections =
          (case processing_loop runaway_world good_connections (example_state ?r) of
             None \<Rightarrow> None
           | Some (Inl (e, s)) \<Rightarrow> Some (Inl (e, trace s))
           | Some (Inr s) \<Rightarrow> Some (show_answer s))"
    by (rule try_body_asked) (simp_all add: runaway_world_def example_world_fields)
  with loop have "try_body runaway_world good_connections = None" by simp
  then have "process_question runaway_world good_connections = None"
    by (simp add: process_question_def)
  moreover have "main runaway_world =
      map_option Inr (process_question runaway_world good_connections)"
    by (rule main_asked)
       (simp_all add: runaway_world_def example_world_fields setup_connections_good)
  ultimately show ?thesis by simp
qed

text \<open>
  Claim C1, amended. The loop has no bound on its round trips. Whenever the secrets are
  loaded, a question is asked, the chat and the driver can be made, and every response of
  the model has function calls that are all valid, the loop goes on for ever: \<^verbatim>\<open>main\<close>
  never returns, and so shows no message about a budget.
\<close>

theorem loop_has_no_round_trip_cap:
  assumes conn: "setup_connections (secrets w) = Inr c"
    and pressed: "button w"
    and asked: "text_input w \<noteq> []"
    and made: "chats_create w (snd (snd (snd c))) = None"
    and drv: "graph_database_driver w (fst c) (fst (snd c)) (fst (snd (snd c))) = Inr driver"
    and total: "\<forall>h. \<exists>r. chat_send_message w (snd (snd (snd c))) h = Inr r \<and> asks_again r"
  shows "main w = None"
proof -
  from total obtain r where
    r: "chat_send_message w (snd (snd (snd c))) [User_text (text_input w)] = Inr r"
    and ask: "asks_again r" by blast
  let ?s = "\<lparr>response = r, step_content = [], final_answer_text = [],
             chat = [User_text (text_input w)],
             trace = [Send_message (User_text (text_input w)),
                      St_subheader Main_container ''Your Question'',
                      St_write Main_container (text_input w)]\<rparr>"
  from total have total': "\<And>h. \<exists>r. chat_send_message w (snd (snd (snd c))) h = Inr r \<and> asks_again r"
    by blast
  from ask have "asks_again (response ?s)" by simp
  with drv total' have "processing_loop w c ?s = None" by (rule processing_loop_asks_again)
  with made r have "try_body w c = None" by (simp add: try_body_def Let_def)
  then have "process_question w c = None" by (simp add: process_question_def)
  with conn pressed asked show ?thesis by (simp add: main_def)
qed

theorem loop_has_no_round_trip_cap_witness:
  "setup_connections (secrets eager_world) = Inr good_connections \<and> button eager_world \<and>
   text_input eager_world = ''Who manages LVMH?'' \<and>
   chat_send_message eager_world ''key'' [] = Inr two_calls \<and> asks_again two_calls \<and>
   main eager_world = None"
proof -
  have conn: "setup_connections (secrets eager_world) = Inr good_connections"
    by (simp add: eager_world_def example_world_fields setup_connections_good)
  have pressed: "button eager_world" by (simp add: eager_world_def example_world_fields)
  have q: "text_input eager_world = ''Who manages LVMH?''"
    by (simp add: eager_world_def example_world_fields)
  then have asked: "text_input eager_world \<noteq> []" by simp
  have made: "chats_create eager_world (snd (snd (snd good_connections))) = None"
    by (simp add: eager_world_def example_world_fields)
  have drv: "graph_database_driver eager_world (fst good_connections)
               (fst (snd good_connections)) (fst (snd (snd good_connections))) = Inr echo_driver"
    by (simp add: eager_world_def example_world_fields)
  have ask: "asks_again two_calls"
    by (simp add: asks_again_def two_calls_def first_parts_reply function_calls_of_text_part
          function_calls_of_call_part function_calls_of_Nil valid_call_query_arg)
  have send: "\<And>h. chat_send_message eager_world ''key'' h = Inr two_calls"
    by (simp add: eager_world_def example_world_fields)
  with ask have total: "\<forall>h. \<exists>r. chat_send_message eager_world (snd (snd (snd good_connections))) h =
                 Inr r \<and> asks_again r"
    by (simp add: good_connections_fields)
  from conn pressed asked made drv total have "main eager_world = None"
    by (rule loop_has_no_round_trip_cap
          [where w = eager_world and c = good_connections and driver = echo_driver])
  with conn pressed q ask send show ?thesis by simp
qed

subsection \<open>C2: a response without function calls\<close>

text \<open>
  Claim C2 says that the final answer is the concatenation of the texts of a response
  without function calls. Lines 230 and 273 take the text only when it has a character
  that is not whitespace. In the world \<open>blank_world\<close> the response has no function call
  and its text is one space, and the answer that is shown is the empty string.
\<close>

theorem blank_answer_is_dropped:
  "function_calls_of (first_parts (reply [text_part '' ''])) = [] \<and>
   joined_text (first_parts (reply [text_part '' ''])) = '' '' \<and>
   main blank_world =
     Some (Inr [Send_message (User_text ''Who manages LVMH?''),
                St_subheader Main_container ''Your Question'',
                St_write Main_container ''Who manages LVMH?'',
                St_subheader Answer_container ''Answer'',
                St_markdown Answer_container []])"
proof -
  let ?r = "reply [text_part '' '']"
  have calls: "function_calls_of (first_parts ?r) = []"
    by (simp add: first_parts_reply function_calls_of_text_part function_calls_of_Nil)
  have jt: "joined_text (first_parts ?r) = '' ''"
    by (simp add: first_parts_reply joined_text_text_part joined_text_Nil)
  have parts: "has_parts (response (example_state ?r)) = Inr True"
    by (simp add: example_state_fields has_parts_reply)
  have calls': "function_calls_of (first_parts (response (example_state ?r))) = []"
    using calls by (simp add: example_state_fields)
  have "loop_body blank_world good_connections (example_state ?r) = Break (example_state ?r)"
    using jt by (simp add: loop_body_no_calls[OF parts calls'] example_state_fields strip_blank)
  then have loop: "processing_loop blank_world good_connections (example_state ?r) =
                     Some (Inr (example_state ?r))"
    by (rule processing_loop_break)
  have shown: "show_answer (example_state ?r) =
     Inr [Send_message (User_text ''Who manages LVMH?''),
          St_subheader Main_container ''Your Question'',
          St_write Main_container ''Who manages LVMH?'',
          St_subheader Answer_container ''Answer'',
          St_markdown Answer_container []]"
    using jt
    by (simp add: show_answer_def answer_text_def example_state_fields has_parts_reply strip_blank)
  have "try_body blank_world good_connections =
          (case processing_loop blank_world good_connections (example_state ?r) of
             None \<Rightarrow> None
           | Some (Inl (e, s)) \<Rightarrow> Some (Inl (e, trace s))
           | Some (Inr s) \<Rightarrow> Some (show_answer s))"
    by (rule try_body_asked) (simp_all add: blank_world_def example_world_fields)
  with loop shown have "process_question blank_world good_connections =
     Some [Send_message (User_text ''Who manages LVMH?''),
           St_subheader Main_container ''Your Question'',
           St_write Main_container ''Who manages LVMH?'',
           St_subheader Answer_container ''Answer'',
           St_markdown Answer_container []]"
    by (simp add: process_question_def)
  moreover have "main blank_world =
      map_option Inr (process_question blank_world good_connections)"
    by (rule main_asked)
       (simp_all add: blank_world_def example_world_fields setup_connections_good)
  ultimately show ?thesis using calls jt by simp
qed

text \<open>
  Claim C2, amended. For every response on which the test of line 218 does not raise and
  which has no function call, the loop ends in that pass: the state after the loop differs
  from the state before it at most in the final answer, so nothing is sent to the chat and
  no query is run. The answer that is then shown is the concatenation of the texts of the
  response when that concatenation has a character that is not whitespace; otherwise it
  is the final answer held before, which is empty when the loop starts.
\<close>

theorem no_tool_call_ends_loop:
  assumes "has_parts (response s) = Inr b"
    and "function_calls_of (first_parts (response s)) = []"
  shows "processing_loop w c s =
           Some (Inr (if strip (joined_text (first_parts (response s))) \<noteq> []
                      then s\<lparr>final_answer_text := joined_text (first_parts (response s))\<rparr>
                      else s)) \<and>
         answer_text (if strip (joined_text (first_parts (response s))) \<noteq> []
                      then s\<lparr>final_answer_text := joined_text (first_parts (response s))\<rparr>
                      else s) =
           Inr (if strip (joined_text (first_parts (response s))) \<noteq> []
                then joined_text (first_parts (response s)) else final_answer_text s)"
proof -
  let ?t = "joined_text (first_parts (response s))"
  let ?s' = "if strip ?t \<noteq> [] then s\<lparr>final_answer_text := ?t\<rparr> else s"
  have "loop_body w c s = Break ?s'" using assms by (rule loop_body_no_calls)
  then have 1: "processing_loop w c s = Some (Inr ?s')" by (rule processing_loop_break)
  have 2: "answer_text ?s' = Inr (if strip ?t \<noteq> [] then ?t else final_answer_text s)"
  proof (cases "strip ?t = []")
    case True
    with assms(1) show ?thesis by (simp add: answer_text_def)
  next
    case False
    then have "?t \<noteq> []" using strip_Nil by auto
    then have "first_parts (response s) \<noteq> []" using joined_text_Nil by auto
    then have "has_parts (response s) = Inr True" by (simp add: has_parts_True)
    with False show ?thesis by (simp add: answer_text_def)
  qed
  from 1 2 show ?thesis by (rule conjI)
qed

theorem no_tool_call_ends_loop_witness:
  "has_parts (reply [text_part ''**Zenith Textiles is a vendor.**'']) = Inr True \<and>
   function_calls_of (first_parts (reply [text_part ''**Zenith Textiles is a vendor.**''])) = [] \<and>
   processing_loop one_trip_world good_connections
       (example_state (reply [text_part ''**Zenith Textiles is a vendor.**''])) =
     Some (Inr ((example_state (reply [text_part ''**Zenith Textiles is a vendor.**'']))
                  \<lparr>final_answer_text := ''**Zenith Textiles is a vendor.**''\<rparr>)) \<and>
   answer_text ((example_state (reply [text_part ''**Zenith Textiles is a vendor.**'']))
                  \<lparr>final_answer_text := ''**Zenith Textiles is a vendor.**''\<rparr>) =
     Inr ''**Zenith Textiles is a vendor.**''"
proof -
  let ?a = "''**Zenith Textiles is a vendor.**''"
  let ?r = "reply [text_part ?a]"
  have parts: "has_parts ?r = Inr True" by (simp add: has_parts_reply)
  have calls: "function_calls_of (first_parts ?r) = []"
    by (simp add: first_parts_reply function_calls_of_text_part function_calls_of_Nil)
  have jt: "joined_text (first_parts ?r) = ?a"
    by (simp add: first_parts_reply joined_text_text_part joined_text_Nil)
  have "strip (CHR ''*'' # ''*Zenith Textiles is a vendor.*'' @ [CHR ''*'']) \<noteq> []"
    by (rule strip_starts_ends) (simp_all add: py_isspace_def)
  then have full: "strip ?a \<noteq> []" by simp
  have parts': "has_parts (response (example_state ?r)) = Inr True"
    using parts by (simp add: example_state_fields)
  have calls': "function_calls_of (first_parts (response (example_state ?r))) = []"
    using calls by (simp add: example_state_fields)
  from no_tool_call_ends_loop[OF parts' calls', of one_trip_world good_connections] jt full
  have "processing_loop one_trip_world good_connections (example_state ?r) =
          Some (Inr ((example_state ?r)\<lparr>final_answer_text := ?a\<rparr>)) \<and>
        answer_text ((example_state ?r)\<lparr>final_answer_text := ?a\<rparr>) = Inr ?a"
    by (simp add: example_state_fields)
  with parts calls show ?thesis by simp
qed

subsection \<open>C3: one query for each valid function call\<close>

text \<open>
  Claim C3 says that for every response with function calls the loop runs the query of
  each valid call once, in the order of the calls, before the next message is sent. The
  loop of lines 246-263 does so as long as no call raises, but \<^verbatim>\<open>run_cypher_query\<close> makes
  the driver outside its \<^verbatim>\<open>try\<close> statement (lines 39-42), so an exception of
  \<^verbatim>\<open>GraphDatabase.driver\<close> leaves the \<^verbatim>\<open>for\<close> loop at the first valid call. In the world
  \<open>bad_uri_world\<close> the response \<open>two_calls\<close> has two valid calls; the query of the first is
  the only one that is run, and the run of the script ends in the error box.
\<close>

theorem driver_failure_stops_dispatch:
  "valid_queries (function_calls_of (first_parts two_calls)) =
     [''MATCH (c:Chunk) RETURN c'', ''MATCH (e:Entity) RETURN e''] \<and>
   main bad_uri_world =
     Some (Inr [Send_message (User_text ''Who manages LVMH?''),
                St_subheader Main_container ''Your Question'',
                St_write Main_container ''Who manages LVMH?'',
                St_markdown Process_steps ''Performing Global Search...'',
                Neo4j_query ''MATCH (c:Chunk) RETURN c'',
                St_error ''An error occurred: URI scheme http is not supported''])"
proof -
  let ?q1 = "''MATCH (c:Chunk) RETURN c''"
  let ?q2 = "''MATCH (e:Entity) RETURN e''"
  let ?c1 = "\<lparr>name = Some ''run_cypher_query'', args = Some [''query'' \<mapsto> ?q1]\<rparr>"
  let ?c2 = "\<lparr>name = Some ''run_cypher_query'', args = Some [''query'' \<mapsto> ?q2]\<rparr>"
  let ?t = "''Performing Global Search...''"
  let ?s = "example_state two_calls"
  let ?e = "External ''URI scheme http is not supported''"
  have calls0: "function_calls_of (first_parts two_calls) = [?c1, ?c2]"
    by (simp add: two_calls_def first_parts_reply function_calls_of_text_part
          function_calls_of_call_part function_calls_of_Nil)
  have vq: "valid_queries [?c1, ?c2] = [?q1, ?q2]"
    by (simp add: valid_queries_valid[OF valid_call_query_arg] valid_queries_Nil)
  have calls: "function_calls_of (first_parts (response ?s)) = [?c1, ?c2]"
    using calls0 by (simp add: example_state_fields)
  then have ne: "function_calls_of (first_parts (response ?s)) \<noteq> []" by simp
  have jt: "joined_text (first_parts (response ?s)) = ?t"
    by (simp add: example_state_fields two_calls_def first_parts_reply joined_text_text_part
          joined_text_call_part joined_text_Nil)
  have "strip (CHR ''P'' # ''erforming Global Search..'' @ [CHR ''.'']) \<noteq> []"
    by (rule strip_starts_ends) (simp_all add: py_isspace_def)
  then have full: "strip ?t \<noteq> []" by simp
  have tr1: "trace (flush_steps ?t ?s) = trace ?s @ [St_markdown Process_steps ?t]"
    using full by (simp add: flush_steps_def example_state_fields)
  have run: "run_cypher_query bad_uri_world ?q1 (fst bad_uri_connections)
               (fst (snd bad_uri_connections)) (fst (snd (snd bad_uri_connections))) = Inl ?e"
    by (simp add: run_cypher_query_def bad_uri_world_def)
  have d: "dispatch bad_uri_world bad_uri_connections (?c1 # [?c2]) []
             (trace ?s @ [St_markdown Process_steps ?t]) =
           Inl (?e, (trace ?s @ [St_markdown Process_steps ?t]) @ [Neo4j_query ?q1])"
    using valid_call_query_arg run by (rule dispatch_valid_raises)
  have "loop_body bad_uri_world bad_uri_connections ?s =
          Raise ?e (flush_steps (joined_text (first_parts (response ?s))) ?s
            \<lparr>trace := (trace ?s @ [St_markdown Process_steps ?t]) @ [Neo4j_query ?q1]\<rparr>)"
    using ne by (rule loop_body_dispatch_raises) (simp only: calls jt tr1 d)
  then have "main bad_uri_world =
     Some (Inr (trace (flush_steps (joined_text (first_parts (response ?s))) ?s
            \<lparr>trace := (trace ?s @ [St_markdown Process_steps ?t]) @ [Neo4j_query ?q1]\<rparr>) @
          [St_error (''An error occurred: '' @ exc_text ?e)]))"
    by (rule main_first_pass_raises[rotated 5])
       (simp_all add: bad_uri_world_def example_world_fields setup_connections_bad_uri
          bad_uri_connections_fields)
  then show ?thesis using calls0 vq by (simp add: example_state_fields)
qed

subsection \<open>C4: a failure of the data source\<close>

text \<open>
  Claim C4 says that \<^verbatim>\<open>run_cypher_query\<close> turns every failure of the data source into the
  result \<^verbatim>\<open>{"error": message}\<close> and never lets an exception through. The handler of
  lines 54-56 does that for the \<^verbatim>\<open>try\<close> block of lines 44-53: in the world
  \<open>broken_db_world\<close>, whose database rejects the query, the result is the error document.
  But the driver is made in lines 39-42, before the \<^verbatim>\<open>try\<close> statement. In the world
  \<open>bad_uri_world\<close>, where \<^verbatim>\<open>GraphDatabase.driver\<close> raises, the exception leaves
  \<^verbatim>\<open>run_cypher_query\<close>, and the loop receives no result.
\<close>

theorem driver_failure_leaves_run_cypher_query:
  "run_cypher_query broken_db_world ''MATCH (n RETURN n'' ''bolt://graph:7687'' ''neo4j''
     ''secret'' = Inr (Dumps_dict [(''error'', ''syntax error'')]) \<and>
   run_cypher_query bad_uri_world ''MATCH (c:Chunk) RETURN c'' ''http://graph:7474'' ''neo4j''
     ''secret'' = Inl (External ''URI scheme http is not supported'')"
proof -
  have "graph_database_driver broken_db_world ''bolt://graph:7687'' ''neo4j'' ''secret'' =
          Inr broken_driver"
    by (simp add: broken_db_world_def example_world_def)
  then have "run_cypher_query broken_db_world ''MATCH (n RETURN n'' ''bolt://graph:7687''
               ''neo4j'' ''secret'' =
             Inr (case broken_driver ''MATCH (n RETURN n'' of
                    Inl e \<Rightarrow> Dumps_dict [(''error'', exc_text e)]
                  | Inr result_list \<Rightarrow> Dumps_list result_list)"
    by (rule run_cypher_query_driver)
  then have 1: "run_cypher_query broken_db_world ''MATCH (n RETURN n'' ''bolt://graph:7687''
               ''neo4j'' ''secret'' = Inr (Dumps_dict [(''error'', ''syntax error'')])"
    by (simp add: broken_driver_def)
  have "graph_database_driver bad_uri_world ''http://graph:7474'' ''neo4j'' ''secret'' =
          Inl (External ''URI scheme http is not supported'')"
    by (simp add: bad_uri_world_def)
  then have 2: "run_cypher_query bad_uri_world ''MATCH (c:Chunk) RETURN c''
                  ''http://graph:7474'' ''neo4j'' ''secret'' =
                Inl (External ''URI scheme http is not supported'')"
    by (rule run_cypher_query_no_driver)
  from 1 2 show ?thesis by (rule conjI)
qed

subsection \<open>C5: a response without parts\<close>

text \<open>
  Claim C5 says that a response without candidates or without parts ends the loop
  without an exception. The test of line 218 does that when \<^verbatim>\<open>candidates\<close> is \<^verbatim>\<open>None\<close>
  or empty and when the parts of the first candidate are \<^verbatim>\<open>None\<close> or empty, but it reads
  \<^verbatim>\<open>.content.parts\<close> without a test of \<^verbatim>\<open>content\<close>. In the world \<open>no_content_world\<close> the
  first candidate has no content, and so no parts: the test raises \<^verbatim>\<open>AttributeError\<close>,
  the loop is left by the exception, and the handler of line 281 shows the error box in
  place of the answer.
\<close>

theorem missing_content_raises:
  "first_parts no_content = [] \<and>
   has_parts no_content = Inl (AttributeError ''parts'') \<and>
   processing_loop no_content_world good_connections (example_state no_content) =
     Some (Inl (AttributeError ''parts'', example_state no_content)) \<and>
   main no_content_world =
     Some (Inr [Send_message (User_text ''Who manages LVMH?''),
                St_subheader Main_container ''Your Question'',
                St_write Main_container ''Who manages LVMH?'',
                St_error (''An error occurred: '' @ exc_text (AttributeError ''parts''))])"
proof -
  let ?s = "example_state no_content"
  have fp: "first_parts no_content = []" by (simp add: first_parts_def no_content_def)
  have hp: "has_parts no_content = Inl (AttributeError ''parts'')"
    by (simp add: has_parts_def no_content_def)
  then have "has_parts (response ?s) = Inl (AttributeError ''parts'')"
    by (simp add: example_state_fields)
  then have body: "loop_body no_content_world good_connections ?s =
                     Raise (AttributeError ''parts'') ?s"
    by (rule loop_body_guard_raises)
  then have loop: "processing_loop no_content_world good_connections ?s =
                     Some (Inl (AttributeError ''parts'', ?s))"
    by (rule processing_loop_raise)
  from body have "main no_content_world =
     Some (Inr (trace ?s @ [St_error (''An error occurred: '' @ exc_text (AttributeError ''parts''))]))"
    by (rule main_first_pass_raises[rotated 5])
       (simp_all add: no_content_world_def example_world_fields setup_connections_good)
  with fp hp loop show ?thesis by (simp add: example_state_fields)
qed

subsection \<open>C6: function calls of which none is valid\<close>

text \<open>
  Claim C6 says that a response whose function calls all have a wrong name or lack the
  \<^verbatim>\<open>query\<close> argument ends the loop early and without a crash. Line 252 skips a call
  with another name and a call whose dictionary of arguments has no \<^verbatim>\<open>query\<close>, but it
  tests \<^verbatim>\<open>"query" in args\<close> without a test of \<^verbatim>\<open>args\<close>. In the world \<open>no_args_world\<close>
  the model calls the registered tool without arguments: the test raises \<^verbatim>\<open>TypeError\<close>,
  the loop is left by the exception, and the handler of line 281 shows the error box in
  place of the answer.
\<close>

theorem missing_arguments_raise:
  "function_calls_of (first_parts no_args) =
     [\<lparr>name = Some ''run_cypher_query'', args = None\<rparr>] \<and>
   \<not> valid_call \<lparr>name = Some ''run_cypher_query'', args = (None :: (string \<rightharpoonup> string) option)\<rparr> \<and>
   main no_args_world =
     Some (Inr [Send_message (User_text ''Who manages LVMH?''),
                St_subheader Main_container ''Your Question'',
                St_write Main_container ''Who manages LVMH?'',
                St_error (''An error occurred: '' @ exc_text (TypeError ''NoneType''))])"
proof -
  let ?fc = "\<lparr>name = Some ''run_cypher_query'', args = (None :: (string \<rightharpoonup> string) option)\<rparr>"
  let ?s = "example_state no_args"
  have calls0: "function_calls_of (first_parts no_args) = [?fc]"
    by (simp add: first_parts_def no_args_def function_calls_of_def map_filter_simps)
  have invalid: "\<not> valid_call ?fc" by (simp add: valid_call_def query_of_def)
  have calls: "function_calls_of (first_parts (response ?s)) = [?fc]"
    using calls0 by (simp add: example_state_fields)
  then have ne: "function_calls_of (first_parts (response ?s)) \<noteq> []" by simp
  have jt: "joined_text (first_parts (response ?s)) = []"
    by (simp add: example_state_fields first_parts_def no_args_def joined_text_concat
          truthy_text_def map_filter_simps)
  have fl: "flush_steps [] ?s = ?s" by (simp add: flush_steps_def strip_Nil)
  have d: "dispatch no_args_world good_connections (?fc # []) [] (trace ?s) =
             Inl (TypeError ''NoneType'', trace ?s)"
    by (rule dispatch_no_args) simp_all
  have "loop_body no_args_world good_connections ?s =
          Raise (TypeError ''NoneType'')
            (flush_steps (joined_text (first_parts (response ?s))) ?s\<lparr>trace := trace ?s\<rparr>)"
    using ne by (rule loop_body_dispatch_raises) (simp only: calls jt fl d)
  then have "main no_args_world =
     Some (Inr (trace (flush_steps (joined_text (first_parts (response ?s))) ?s
                  \<lparr>trace := trace ?s\<rparr>) @
          [St_error (''An error occurred: '' @ exc_text (TypeError ''NoneType''))]))"
    by (rule main_first_pass_raises[rotated 5])
       (simp_all add: no_args_world_def example_world_fields setup_connections_good)
  with calls0 invalid show ?thesis by (simp add: example_state_fields)
qed

subsection \<open>C7: the message of a fatal error\<close>

text \<open>
  Claim C7 says that the message shown for a fatal error is not the raw text of the
  exception. The handler of lines 281-283 shows \<^verbatim>\<open>str(e)\<close> after a fixed prefix. In the
  world \<open>quota_world\<close>, where the client raises an exception with the text
  \<^verbatim>\<open>429 RESOURCE_EXHAUSTED\<close>, that text is what the error box shows.
\<close>

theorem raw_exception_text_is_shown:
  "exc_text (External ''429 RESOURCE_EXHAUSTED'') = ''429 RESOURCE_EXHAUSTED'' \<and>
   main quota_world =
     Some (Inr [Send_message (User_text ''Who manages LVMH?''),
                St_error ''An error occurred: 429 RESOURCE_EXHAUSTED''])"
proof -
  have "try_body quota_world good_connections =
          Some (Inl (External ''429 RESOURCE_EXHAUSTED'',
                     [Send_message (User_text (text_input quota_world))]))"
    by (rule try_body_not_sent) (simp_all add: quota_world_def example_world_fields)
  then have "process_question quota_world good_connections =
     Some [Send_message (User_text ''Who manages LVMH?''),
           St_error ''An error occurred: 429 RESOURCE_EXHAUSTED'']"
    by (simp add: process_question_def quota_world_def example_world_fields)
  moreover have "main quota_world =
      map_option Inr (process_question quota_world good_connections)"
    by (rule main_asked)
       (simp_all add: quota_world_def example_world_fields setup_connections_good)
  ultimately show ?thesis by simp
qed

text \<open>
  Claim C7, amended. On every path on which the processing of a question raises an
  exception, the page is shown one error box, after everything that was shown before, and
  no other error box; its text is \<^verbatim>\<open>An error occurred: \<close> followed by the text of the
  exception.
\<close>

theorem fatal_error_shows_exception_text:
  assumes "try_body w c = Some (Inl (e, tr))"
  shows "process_question w c = Some (tr @ [St_error (''An error occurred: '' @ exc_text e)]) \<and>
         error_boxes (tr @ [St_error (''An error occurred: '' @ exc_text e)]) =
           [''An error occurred: '' @ exc_text e]"
proof -
  have 1: "process_question w c = Some (tr @ [St_error (''An error occurred: '' @ exc_text e)])"
    using assms by (simp add: process_question_def)
  have 2: "error_boxes tr = []"
  proof (cases "chats_create w (snd (snd (snd c)))")
    case (Some e0)
    with assms have "tr = []" by (simp add: try_body_def Let_def)
    then show ?thesis by simp
  next
    case None
    show ?thesis
    proof (cases "chat_send_message w (snd (snd (snd c))) [User_text (text_input w)]")
      case (Inl e0)
      with assms None have "tr = [Send_message (User_text (text_input w))]"
        by (simp add: try_body_def Let_def)
      then show ?thesis by simp
    next
      case (Inr r)
      let ?s = "\<lparr>response = r, step_content = [], final_answer_text = [],
                 chat = [User_text (text_input w)],
                 trace = [Send_message (User_text (text_input w)),
                          St_subheader Main_container ''Your Question'',
                          St_write Main_container (text_input w)]\<rparr>"
      have init: "error_boxes (trace ?s) = []" by simp
      from assms None Inr have body:
        "(case processing_loop w c ?s of
            None \<Rightarrow> None
          | Some (Inl (e, s)) \<Rightarrow> Some (Inl (e, trace s))
          | Some (Inr s) \<Rightarrow> Some (show_answer s)) = Some (Inl (e, tr))"
        by (simp add: try_body_def Let_def)
      show ?thesis
      proof (cases "processing_loop w c ?s")
        case None
        with body show ?thesis by simp
      next
        case (Some res)
        note eb = processing_loop_error_boxes[OF Some init]
        show ?thesis
        proof (cases res)
          case (Inl a)
          obtain e' s' where a: "a = (e', s')" by (cases a)
          from body Some Inl a have "tr = trace s'" by simp
          with eb Inl a show ?thesis by simp
        next
          case inr: (Inr s')
          from body Some inr have "show_answer s' = Inl (e, tr)" by simp
          then have "tr = trace s'" by (simp add: show_answer_def split: sum.splits)
          with eb inr show ?thesis by simp
        qed
      qed
    qed
  qed
  from 1 2 show ?thesis by (simp add: error_boxes_append)
qed

theorem fatal_error_shows_exception_text_witness:
  "try_body dropped_world good_connections =
     Some (Inl (External ''503 UNAVAILABLE'',
       [Send_message (User_text ''Who manages LVMH?''),
        St_subheader Main_container ''Your Question'',
        St_write Main_container ''Who manages LVMH?'',
        Neo4j_query ''MATCH (n) RETURN n'',
        Send_message (Function_responses
          [\<lparr>fr_name = ''run_cypher_query'',
            fr_response = [(''results'', Dumps_list [''MATCH (n) RETURN n''])]\<rparr>])])) \<and>
   process_question dropped_world good_connections =
     Some [Send_message (User_text ''Who manages LVMH?''),
           St_subheader Main_container ''Your Question'',
           St_write Main_container ''Who manages LVMH?'',
           Neo4j_query ''MATCH (n) RETURN n'',
           Send_message (Function_responses
             [\<lparr>fr_name = ''run_cypher_query'',
               fr_response = [(''results'', Dumps_list [''MATCH (n) RETURN n''])]\<rparr>]),
           St_error ''An error occurred: 503 UNAVAILABLE'']"
proof -
  let ?r = "reply [call_part ''run_cypher_query'' [''query'' \<mapsto> ''MATCH (n) RETURN n'']]"
  let ?tr = "[Send_message (User_text ''Who manages LVMH?''),
        St_subheader Main_container ''Your Question'',
        St_write Main_container ''Who manages LVMH?'',
        Neo4j_query ''MATCH (n) RETURN n'',
        Send_message (Function_responses
          [\<lparr>fr_name = ''run_cypher_query'',
            fr_response = [(''results'', Dumps_list [''MATCH (n) RETURN n''])]\<rparr>])]"
  have body: "try_body dropped_world good_connections =
          (case processing_loop dropped_world good_connections (example_state ?r) of
             None \<Rightarrow> None
           | Some (Inl (e, s)) \<Rightarrow> Some (Inl (e, trace s))
           | Some (Inr s) \<Rightarrow> Some (show_answer s))"
    by (rule try_body_asked) (simp_all add: dropped_world_def example_world_fields)
  have "try_body dropped_world good_connections =
          Some (Inl (External ''503 UNAVAILABLE'', ?tr))"
    by (simp add: body processing_loop_raise[OF dropped_world_ask])
  from this fatal_error_shows_exception_text[OF this] show ?thesis by simp
qed

subsection \<open>C8: no answer and the empty answer\<close>

text \<open>
  Claim C8 says that the absence of an answer is shown differently from an answer that is
  the empty string. Lines 277-279 show \<^verbatim>\<open>final_answer_text\<close> in both cases, and there is
  no fallback message. The world \<open>silent_world\<close>, whose model sends no candidates, and
  the world \<open>empty_text_world\<close>, whose model answers with the empty text, give the same
  page: the header \<^verbatim>\<open>Answer\<close> over an empty text.
\<close>

theorem no_answer_looks_like_empty_answer:
  "main silent_world =
     Some (Inr [Send_message (User_text ''Who manages LVMH?''),
                St_subheader Main_container ''Your Question'',
                St_write Main_container ''Who manages LVMH?'',
                St_subheader Answer_container ''Answer'',
                St_markdown Answer_container []]) \<and>
   main empty_text_world = main silent_world"
proof -
  let ?page = "[Send_message (User_text ''Who manages LVMH?''),
                St_subheader Main_container ''Your Question'',
                St_write Main_container ''Who manages LVMH?'',
                St_subheader Answer_container ''Answer'',
                St_markdown Answer_container []]"
  let ?r0 = "\<lparr>candidates = None\<rparr> :: string response"
  let ?r1 = "reply [text_part []]"
  have "loop_body silent_world good_connections (example_state ?r0) = Break (example_state ?r0)"
    by (rule loop_body_no_parts) (simp add: example_state_fields has_parts_def)
  then have loop0: "processing_loop silent_world good_connections (example_state ?r0) =
                      Some (Inr (example_state ?r0))"
    by (rule processing_loop_break)
  have shown0: "show_answer (example_state ?r0) = Inr ?page"
    by (simp add: show_answer_def answer_text_def example_state_fields has_parts_def)
  have "try_body silent_world good_connections =
          (case processing_loop silent_world good_connections (example_state ?r0) of
             None \<Rightarrow> None
           | Some (Inl (e, s)) \<Rightarrow> Some (Inl (e, trace s))
           | Some (Inr s) \<Rightarrow> Some (show_answer s))"
    by (rule try_body_asked) (simp_all add: silent_world_def example_world_fields)
  with loop0 shown0 have "process_question silent_world good_connections = Some ?page"
    by (simp add: process_question_def)
  moreover have "main silent_world =
      map_option Inr (process_question silent_world good_connections)"
    by (rule main_asked)
       (simp_all add: silent_world_def example_world_fields setup_connections_good)
  ultimately have silent: "main silent_world = Some (Inr ?page)" by simp
  have parts: "has_parts (response (example_state ?r1)) = Inr True"
    by (simp add: example_state_fields has_parts_reply)
  have calls: "function_calls_of (first_parts (response (example_state ?r1))) = []"
    by (simp add: example_state_fields first_parts_reply function_calls_of_text_part
          function_calls_of_Nil)
  have jt: "joined_text (first_parts (response (example_state ?r1))) = []"
    by (simp add: example_state_fields first_parts_reply joined_text_text_part joined_text_Nil)
  have "loop_body empty_text_world good_connections (example_state ?r1) =
          Break (example_state ?r1)"
    by (simp add: loop_body_no_calls[OF parts calls] jt strip_Nil)
  then have loop1: "processing_loop empty_text_world good_connections (example_state ?r1) =
                      Some (Inr (example_state ?r1))"
    by (rule processing_loop_break)
  have shown1: "show_answer (example_state ?r1) = Inr ?page"
    using jt parts by (simp add: show_answer_def answer_text_def strip_Nil example_state_fields)
  have "try_body empty_text_world good_connections =
          (case processing_loop empty_text_world good_connections (example_state ?r1) of
             None \<Rightarrow> None
           | Some (Inl (e, s)) \<Rightarrow> Some (Inl (e, trace s))
           | Some (Inr s) \<Rightarrow> Some (show_answer s))"
    by (rule try_body_asked) (simp_all add: empty_text_world_def example_world_fields)
  with loop1 shown1 have "process_question empty_text_world good_connections = Some ?page"
    by (simp add: process_question_def)
  moreover have "main empty_text_world =
      map_option Inr (process_question empty_text_world good_connections)"
    by (rule main_asked)
       (simp_all add: empty_text_world_def example_world_fields setup_connections_good)
  ultimately have "main empty_text_world = Some (Inr ?page)" by simp
  with silent show ?thesis by simp
qed

text \<open>
  Claim C8, amended. When the loop ends by \<^verbatim>\<open>break\<close>, having started with an empty final
  answer, and the texts of the last response have no character that is not whitespace,
  the page is shown the header \<^verbatim>\<open>Answer\<close> and the empty string, as for an answer that
  is the empty string; the absence of an answer is not signalled.
\<close>

theorem no_terminal_text_shows_empty_answer:
  assumes run: "processing_loop w c s0 = Some (Inr s)"
    and init: "final_answer_text s0 = []"
    and blank: "strip (joined_text (first_parts (response s))) = []"
  shows "show_answer s =
           Inr (trace s @ [St_subheader Answer_container ''Answer'',
                           St_markdown Answer_container []])"
proof -
  from processing_loop_no_text[OF run init] blank obtain b where
    "has_parts (response s) = Inr b" and "final_answer_text s = []" by blast
  with blank show ?thesis by (simp add: show_answer_def answer_text_def)
qed

theorem no_terminal_text_shows_empty_answer_witness:
  "processing_loop silent_world good_connections (example_state \<lparr>candidates = None\<rparr>) =
     Some (Inr (example_state \<lparr>candidates = None\<rparr>)) \<and>
   final_answer_text (example_state \<lparr>candidates = None\<rparr> :: (string, string list) loop_state) = [] \<and>
   strip (joined_text (first_parts (response
     (example_state \<lparr>candidates = None\<rparr> :: (string, string list) loop_state)))) = [] \<and>
   show_answer (example_state \<lparr>candidates = None\<rparr> :: (string, string list) loop_state) =
     Inr [Send_message (User_text ''Who manages LVMH?''),
          St_subheader Main_container ''Your Question'',
          St_write Main_container ''Who manages LVMH?'',
          St_subheader Answer_container ''Answer'',
          St_markdown Answer_container []]"
proof -
  let ?s = "example_state \<lparr>candidates = None\<rparr> :: (string, string list) loop_state"
  have "loop_body silent_world good_connections ?s = Break ?s"
    by (rule loop_body_no_parts) (simp add: example_state_fields has_parts_def)
  then have run: "processing_loop silent_world good_connections ?s = Some (Inr ?s)"
    by (rule processing_loop_break)
  have init: "final_answer_text ?s = []" by (simp add: example_state_fields)
  have blank: "strip (joined_text (first_parts (response ?s))) = []"
    by (simp add: example_state_fields first_parts_def joined_text_Nil strip_Nil)
  from no_terminal_text_shows_empty_answer[OF run init blank] run init blank
  show ?thesis by (simp add: example_state_fields)
qed

subsection \<open>C9: the name of a function response\<close>

text \<open>
  Claim C9. In one pass of the loop, either nothing is sent to the chat, or one message
  of function responses is sent. These responses are, one by one and in order, the
  answers to the valid function calls of the response, which are the calls that were
  dispatched: each holds the result of the query of its call, and each carries the name
  of the call it answers.
\<close>

theorem tool_result_carries_call_name:
  "sent (trace (state_of (loop_body w c s))) = sent (trace s) \<or>
   (\<exists>frs. sent (trace (state_of (loop_body w c s))) = sent (trace s) @ [Function_responses frs] \<and>
      list_all2 (answers w c) frs
        (filter valid_call (function_calls_of (first_parts (response s)))) \<and>
      map (\<lambda>fr. Some (fr_name fr)) frs =
        map name (filter valid_call (function_calls_of (first_parts (response s)))))"
proof (cases "has_parts (response s)")
  case (Inl e)
  then show ?thesis by (simp add: loop_body_guard_raises)
next
  case (Inr b)
  show ?thesis
  proof (cases "function_calls_of (first_parts (response s)) = []")
    case True
    show ?thesis by (simp add: loop_body_no_calls[OF Inr True])
  next
    case False
    let ?calls = "function_calls_of (first_parts (response s))"
    let ?s1 = "flush_steps (joined_text (first_parts (response s))) s"
    show ?thesis
    proof (cases "dispatch w c ?calls [] (trace ?s1)")
      case (Inl a)
      obtain e tr where a: "a = (e, tr)" by (cases a)
      from Inl a obtain qs where "tr = trace ?s1 @ map Neo4j_query qs"
        using dispatch_raises by blast
      then have "sent (trace (state_of (loop_body w c s))) = sent (trace s)"
        by (simp add: loop_body_calls[OF False] Inl a sent_append sent_queries flush_steps_trace)
      then show ?thesis by (rule disjI1)
    next
      case inr: (Inr a)
      obtain frs tr where a: "a = (frs, tr)" by (cases a)
      from inr a have d: "dispatch w c ?calls [] (trace ?s1) = Inr (frs, tr)" by simp
      from dispatch_returns[OF d] have
        tr: "tr = trace ?s1 @ map Neo4j_query (valid_queries ?calls)"
        and names: "map (\<lambda>fr. Some (fr_name fr)) frs = map name (filter valid_call ?calls)"
        by auto
      from dispatch_answers[OF d] have
        ans: "list_all2 (answers w c) frs (filter valid_call ?calls)" by auto
      have body: "sent (trace (state_of (loop_body w c s))) =
              sent (trace s) @ (if frs = [] then [] else [Function_responses frs])"
        by (simp add: loop_body_calls[OF False] inr a send_function_responses_trace tr
              sent_append sent_queries flush_steps_trace)
      show ?thesis
      proof (cases "frs = []")
        case True
        with body show ?thesis by simp
      next
        case False
        with body have "sent (trace (state_of (loop_body w c s))) =
              sent (trace s) @ [Function_responses frs]" by simp
        with names ans show ?thesis by blast
      qed
    qed
  qed
qed

theorem tool_result_carries_call_name_witness:
  "sent (trace (state_of (loop_body eager_world good_connections (example_state two_calls)))) =
     [User_text ''Who manages LVMH?'',
      Function_responses
        [\<lparr>fr_name = ''run_cypher_query'',
          fr_response = [(''results'', Dumps_list [''MATCH (c:Chunk) RETURN c''])]\<rparr>,
         \<lparr>fr_name = ''run_cypher_query'',
          fr_response = [(''results'', Dumps_list [''MATCH (e:Entity) RETURN e''])]\<rparr>]] \<and>
   list_all2 (answers eager_world good_connections)
     [\<lparr>fr_name = ''run_cypher_query'',
       fr_response = [(''results'', Dumps_list [''MATCH (c:Chunk) RETURN c''])]\<rparr>,
      \<lparr>fr_name = ''run_cypher_query'',
       fr_response = [(''results'', Dumps_list [''MATCH (e:Entity) RETURN e''])]\<rparr>]
     (filter valid_call (function_calls_of (first_parts (response (example_state two_calls))))) \<and>
   map name (filter valid_call (function_calls_of (first_parts (response (example_state two_calls))))) =
     [Some ''run_cypher_query'', Some ''run_cypher_query'']"
proof -
  let ?q1 = "''MATCH (c:Chunk) RETURN c''"
  let ?q2 = "''MATCH (e:Entity) RETURN e''"
  let ?c1 = "\<lparr>name = Some ''run_cypher_query'', args = Some [''query'' \<mapsto> ?q1]\<rparr>"
  let ?c2 = "\<lparr>name = Some ''run_cypher_query'', args = Some [''query'' \<mapsto> ?q2]\<rparr>"
  let ?f1 = "\<lparr>fr_name = ''run_cypher_query'', fr_response = [(''results'', Dumps_list [?q1])]\<rparr>"
  let ?f2 = "\<lparr>fr_name = ''run_cypher_query'', fr_response = [(''results'', Dumps_list [?q2])]\<rparr>"
  let ?t = "''Performing Global Search...''"
  let ?s = "example_state two_calls"
  let ?tr = "trace ?s @ [St_markdown Process_steps ?t]"
  have calls: "function_calls_of (first_parts (response ?s)) = [?c1, ?c2]"
    by (simp add: example_state_fields two_calls_def first_parts_reply
          function_calls_of_text_part function_calls_of_call_part function_calls_of_Nil)
  then have ne: "function_calls_of (first_parts (response ?s)) \<noteq> []" by simp
  have jt: "joined_text (first_parts (response ?s)) = ?t"
    by (simp add: example_state_fields two_calls_def first_parts_reply joined_text_text_part
          joined_text_call_part joined_text_Nil)
  have "strip (CHR ''P'' # ''erforming Global Search..'' @ [CHR ''.'']) \<noteq> []"
    by (rule strip_starts_ends) (simp_all add: py_isspace_def)
  then have full: "strip ?t \<noteq> []" by simp
  have tr1: "trace (flush_steps ?t ?s) = ?tr"
    using full by (simp add: flush_steps_def example_state_fields)
  have run: "\<And>q. run_cypher_query eager_world q (fst good_connections)
               (fst (snd good_connections)) (fst (snd (snd good_connections))) =
             Inr (Dumps_list [q])"
    by (simp add: run_cypher_query_def eager_world_def example_world_fields echo_driver_def)
  have "dispatch eager_world good_connections (?c1 # [?c2]) [] ?tr =
          dispatch eager_world good_connections [?c2] ([] @ [?f1]) (?tr @ [Neo4j_query ?q1])"
    using valid_call_query_arg run by (rule dispatch_valid)
  also have "\<dots> =
          dispatch eager_world good_connections [] (([] @ [?f1]) @ [?f2])
            ((?tr @ [Neo4j_query ?q1]) @ [Neo4j_query ?q2])"
    using valid_call_query_arg run by (rule dispatch_valid)
  finally have d: "dispatch eager_world good_connections [?c1, ?c2] [] ?tr =
      Inr ([?f1, ?f2], (?tr @ [Neo4j_query ?q1]) @ [Neo4j_query ?q2])"
    by simp
  have "loop_body eager_world good_connections ?s =
          send_function_responses eager_world good_connections [?f1, ?f2]
            (flush_steps ?t ?s\<lparr>trace := (?tr @ [Neo4j_query ?q1]) @ [Neo4j_query ?q2]\<rparr>)"
    by (simp only: loop_body_calls[OF ne] calls jt tr1 d sum.case prod.case)
  then have "trace (state_of (loop_body eager_world good_connections ?s)) =
          ((?tr @ [Neo4j_query ?q1]) @ [Neo4j_query ?q2]) @
            [Send_message (Function_responses [?f1, ?f2])]"
    by (simp add: send_function_responses_trace)
  then have after: "sent (trace (state_of (loop_body eager_world good_connections ?s))) =
          [User_text ''Who manages LVMH?'', Function_responses [?f1, ?f2]]"
    by (simp add: example_state_fields)
  have before: "sent (trace ?s) = [User_text ''Who manages LVMH?'']"
    by (simp add: example_state_fields)
  from tool_result_carries_call_name[of eager_world good_connections ?s] after before
  have "list_all2 (answers eager_world good_connections) [?f1, ?f2]
          (filter valid_call (function_calls_of (first_parts (response ?s)))) \<and>
        map (\<lambda>fr. Some (fr_name fr)) [?f1, ?f2] =
          map name (filter valid_call (function_calls_of (first_parts (response ?s))))"
    by auto
  with after show ?thesis by simp
qed

subsection \<open>C10: a missing secret\<close>

text \<open>
  Claim C10. If the lookup of one of the four secrets fails, \<^verbatim>\<open>setup_connections\<close>
  returns no credentials: its \<^verbatim>\<open>return\<close> statement reads a local variable that was never
  assigned and raises \<^verbatim>\<open>UnboundLocalError\<close>. The call is made before the \<^verbatim>\<open>try\<close>
  statement of \<^verbatim>\<open>main\<close>, so the exception leaves \<^verbatim>\<open>main\<close> and no error box is shown.
\<close>

theorem missing_secret_leaves_main_uncaught:
  assumes "\<exists>k \<in> {''NEO4J_URI'', ''NEO4J_USER'', ''NEO4J_PASSWORD'', ''api_key''}.
             \<exists>e. secrets w k = Inl e"
  shows "\<exists>v \<in> {''neo4j_uri'', ''neo4j_user'', ''neo4j_password'', ''google_api_key''}.
           setup_connections (secrets w) = Inl (UnboundLocalError v) \<and>
           main w = Some (Inl (UnboundLocalError v))"
proof -
  have m: "\<And>v. setup_connections (secrets w) = Inl (UnboundLocalError v) \<Longrightarrow>
             main w = Some (Inl (UnboundLocalError v))"
    by (simp add: main_def)
  from assms have "\<exists>v \<in> {''neo4j_uri'', ''neo4j_user'', ''neo4j_password'', ''google_api_key''}.
           setup_connections (secrets w) = Inl (UnboundLocalError v)"
    by (auto simp: setup_connections_cases split: sum.splits)
  with m show ?thesis by blast
qed

theorem missing_secret_leaves_main_uncaught_witness:
  "secrets no_api_key_world ''api_key'' = Inl (External ''api_key'') \<and>
   main no_api_key_world = Some (Inl (UnboundLocalError ''google_api_key''))"
proof -
  have k: "secrets no_api_key_world ''api_key'' = Inl (External ''api_key'')"
    by (simp add: no_api_key_world_def no_api_key_def)
  then have "\<exists>k \<in> {''NEO4J_URI'', ''NEO4J_USER'', ''NEO4J_PASSWORD'', ''api_key''}.
             \<exists>e. secrets no_api_key_world k = Inl e" by blast
  then obtain v where
    v: "setup_connections (secrets no_api_key_world) = Inl (UnboundLocalError v)"
       "main no_api_key_world = Some (Inl (UnboundLocalError v))"
    using missing_secret_leaves_main_uncaught[of no_api_key_world] by blast
  have "setup_connections (secrets no_api_key_world) =
          Inl (UnboundLocalError ''google_api_key'')"
    by (simp add: setup_connections_cases no_api_key_world_def no_api_key_def good_secrets_def)
  with v have "v = ''google_api_key''" by simp
  with v k show ?thesis by simp
qed

end
